theory Spec2Isabelle
  imports Main "HOL-Library.Char_ord" "HOL-Library.List_Lexorder" "HOL-Library.Multiset"
begin

section \<open>Values\<close>

text \<open>
  The program is a pandas pipeline over JSON catalog files and one CSV file
  (\<^verbatim>\<open>solution.py\<close>). The embedding has three layers: the Python values that
  \<^verbatim>\<open>json.load\<close> returns, the pandas operations the source calls (pandas 2
  semantics, on tables held row by row), and the three functions of the source.

  JSON numbers are Python ints; numbers with a fraction or an exponent are not part
  of the value domain. A JSON object is the Python dict it is parsed to, written as
  the list of its items.
\<close>

datatype json =
    JNull
  | JBool bool
  | JInt int
  | JStr string
  | JArr "json list"
  | JObj "(string \<times> json) list"

type_synonym pydict = "(string \<times> json) list"

text \<open>
  A table cell. \<open>NaN\<close> is the missing value pandas fills in. \<open>PyInt\<close> is a
  Python int held in an object column, \<open>NpInt\<close> an integer of an int64 or uint64
  column. \<open>PyFloat n\<close> is the float64 whose value is the integer \<open>n\<close>: floats
  arise only where pandas turns a column of integers into float64. \<open>PyNested\<close>
  is a list or dict held as an object.
\<close>

datatype cell =
    NaN
  | PyNone
  | PyBool bool
  | PyInt int
  | NpInt int
  | PyFloat int
  | PyStr string
  | PyNested json

datatype error =
    KeyError string
  | TypeError
  | MergeError
  | ReadError

text \<open>The lines the program prints, one constructor per \<^verbatim>\<open>print\<close> call.\<close>

datatype diag =
    WarnNoDirectory string
  | Processed string nat
  | ErrorProcessing string
  | WarnMissingColumn string
  | UsingColumn string
  | WarnNoProductSku
  | AvailableColumns "string list"

section \<open>Python string and path functions\<close>

definition endswith :: "string \<Rightarrow> string \<Rightarrow> bool" where
  "endswith s suffix = (length suffix \<le> length s \<and> drop (length s - length suffix) s = suffix)"

fun startswith :: "string \<Rightarrow> string \<Rightarrow> bool" where
  "startswith s [] = True"
| "startswith [] (p # ps) = False"
| "startswith (c # cs) (p # ps) = (c = p \<and> startswith cs ps)"

text \<open>\<^verbatim>\<open>sub in s\<close> on strings.\<close>

fun contains :: "string \<Rightarrow> string \<Rightarrow> bool" where
  "contains [] sub = (sub = [])"
| "contains (c # cs) sub = (startswith (c # cs) sub \<or> contains cs sub)"

text \<open>
  A string is the UTF-8 text of the Python string: an ASCII character is one
  \<open>char\<close>, and comparing strings \<open>char\<close> by \<open>char\<close> is comparing them code
  point by code point. \<^verbatim>\<open>str.lower\<close> is taken on the ASCII letters; the bytes of
  other characters are left as they are, which does not change whether the ASCII
  text \<^verbatim>\<open>sku\<close> occurs.
\<close>

definition lower_char :: "char \<Rightarrow> char" where
  "lower_char c =
     (if CHR ''A'' \<le> c \<and> c \<le> CHR ''Z'' then char_of (of_char c + (32::nat)) else c)"

definition lower :: "string \<Rightarrow> string" where
  "lower s = map lower_char s"

text \<open>\<^verbatim>\<open>os.path.join\<close> of a directory and one name (POSIX).\<close>

definition path_join :: "string \<Rightarrow> string \<Rightarrow> string" where
  "path_join a b =
     (if startswith b ''/'' then b
      else if a = [] \<or> endswith a ''/'' then a @ b
      else a @ ''/'' @ b)"

text \<open>\<^verbatim>\<open>os.path.basename\<close>: what follows the last slash.\<close>

fun basename :: "string \<Rightarrow> string" where
  "basename [] = []"
| "basename (c # cs) = (if CHR ''/'' \<in> set cs then basename cs else if c = CHR ''/'' then cs else c # cs)"

text \<open>
  \<^verbatim>\<open>os.path.splitext(name)[0]\<close> for a name without a slash: the name is cut at its
  last dot, unless every character before that dot is itself a dot.
\<close>

definition splitext_root :: "string \<Rightarrow> string" where
  "splitext_root p =
     (if CHR ''.'' \<in> set p then
        (let root = rev (tl (dropWhile (\<lambda>c. c \<noteq> CHR ''.'') (rev p)))
         in if \<exists>c \<in> set root. c \<noteq> CHR ''.'' then root else p)
      else p)"

definition category_of :: "string \<Rightarrow> string" where
  "category_of file_path = splitext_root (basename file_path)"

section \<open>Reading the catalog files (lines 46 to 62)\<close>

text \<open>
  What \<^verbatim>\<open>open\<close> and \<^verbatim>\<open>json.load\<close> give for one path: an exception (the file
  cannot be read, or its text is not JSON), or the parsed value.
\<close>

datatype load = LoadFailed | Loaded json

text \<open>\<^verbatim>\<open>d[k] = v\<close> on a dict: an existing key keeps its place.\<close>

fun dict_set :: "string \<Rightarrow> json \<Rightarrow> pydict \<Rightarrow> pydict" where
  "dict_set k v [] = [(k, v)]"
| "dict_set k v (p # ps) = (if fst p = k then (k, v) # ps else p # dict_set k v ps)"

text \<open>
  \<^verbatim>\<open>item['category'] = category\<close>: only a dict accepts the assignment, every other
  value raises TypeError (\<open>None\<close>).
\<close>

fun set_category :: "string \<Rightarrow> json \<Rightarrow> pydict option" where
  "set_category category (JObj d) = Some (dict_set ''category'' (JStr category) d)"
| "set_category category _ = None"

fun tag_items :: "string \<Rightarrow> json list \<Rightarrow> pydict list option" where
  "tag_items category [] = Some []"
| "tag_items category (item # items) =
     (case set_category category item of
        None \<Rightarrow> None
      | Some d \<Rightarrow> (case tag_items category items of None \<Rightarrow> None | Some ds \<Rightarrow> Some (d # ds)))"

text \<open>
  The \<^verbatim>\<open>for item in data\<close> loop and \<^verbatim>\<open>all_records.extend(data)\<close>, for each
  shape of \<^verbatim>\<open>data\<close>. Iterating a dict or a string yields strings, which refuse the
  assignment; an empty dict or string yields nothing and extends by nothing; a
  number, a bool and null are not iterable.
\<close>

fun process_data :: "string \<Rightarrow> json \<Rightarrow> pydict list option" where
  "process_data category (JArr items) = tag_items category items"
| "process_data category (JObj d) = (if d = [] then Some [] else None)"
| "process_data category (JStr s) = (if s = [] then Some [] else None)"
| "process_data category _ = None"

text \<open>The body of the \<^verbatim>\<open>try\<close> for one file; \<open>None\<close> when it raises.\<close>

definition process_file :: "string \<Rightarrow> load \<Rightarrow> pydict list option" where
  "process_file file_path l =
     (case l of
        LoadFailed \<Rightarrow> None
      | Loaded data \<Rightarrow> process_data (category_of file_path) data)"

text \<open>
  The loop over \<^verbatim>\<open>json_files\<close>: the printed lines and \<^verbatim>\<open>all_records\<close>. The
  \<^verbatim>\<open>except Exception\<close> branch prints and goes on to the next file.
\<close>

fun collect :: "(string \<times> load) list \<Rightarrow> diag list \<times> pydict list" where
  "collect [] = ([], [])"
| "collect ((file_path, l) # files) =
     (let (out, all_records) = collect files
      in case process_file file_path l of
           None \<Rightarrow> (ErrorProcessing file_path # out, all_records)
         | Some data \<Rightarrow> (Processed file_path (length data) # out, data @ all_records))"

section \<open>Tables\<close>

text \<open>
  A DataFrame, row by row: the column labels and, for each row, the cell under each
  label. The row index of pandas plays no part in the program and is left out.
\<close>

type_synonym row = "(string \<times> cell) list"

record df =
  columns :: "string list"
  rows :: "row list"

definition getc :: "row \<Rightarrow> string \<Rightarrow> cell" where
  "getc r c = (case map_of r c of None \<Rightarrow> NaN | Some v \<Rightarrow> v)"

definition column :: "string \<Rightarrow> row list \<Rightarrow> cell list" where
  "column c rs = map (\<lambda>r. getc r c) rs"

subsection \<open>\<^verbatim>\<open>pd.DataFrame(list_of_dicts)\<close>\<close>

fun to_cell :: "json \<Rightarrow> cell" where
  "to_cell JNull = PyNone"
| "to_cell (JBool b) = PyBool b"
| "to_cell (JInt n) = PyInt n"
| "to_cell (JStr s) = PyStr s"
| "to_cell (JArr xs) = PyNested (JArr xs)"
| "to_cell (JObj d) = PyNested (JObj d)"

text \<open>The column labels: the keys of the dicts in order of first appearance.\<close>

fun unique_keys :: "string list \<Rightarrow> string list \<Rightarrow> string list" where
  "unique_keys found [] = []"
| "unique_keys found (k # ks) =
     (if k \<in> set found then unique_keys found ks else k # unique_keys (k # found) ks)"

text \<open>
  The float64 nearest to an integer (ties to the even significand of 53 bits): the
  value \<^verbatim>\<open>float(i)\<close>, itself an integer. Integers of magnitude up to
  \<open>2 ^ 53\<close> are kept exactly. Magnitudes from \<open>2 ^ 1024\<close> on, which float64
  does not hold, are outside the value domain.
\<close>

function bit_length :: "int \<Rightarrow> nat" where
  "bit_length a = (if a \<le> 0 then 0 else Suc (bit_length (a div 2)))"
  by pat_completeness auto
termination
  by (relation "measure nat") auto

definition round_float :: "int \<Rightarrow> int" where
  "round_float i =
     (let a = \<bar>i\<bar>; e = bit_length a - 53
      in if e = 0 then i
         else (let q = a div 2 ^ e; r = a mod 2 ^ e; half = 2 ^ (e - 1);
                   q' = (if half < r \<or> (r = half \<and> odd q) then q + 1 else q)
               in sgn i * (q' * 2 ^ e)))"

text \<open>
  What \<^verbatim>\<open>lib.maybe_convert_objects\<close> has seen of a column of objects. It reads
  the cells in order and stops at the first string or nested value, and at the
  first int that fits neither int64 nor uint64 or that mixes a negative int with
  one above the int64 range; the range of an int is not looked at once a
  \<^verbatim>\<open>None\<close> has been seen.
\<close>

record seen =
  seen_null :: bool
  seen_nan :: bool
  seen_bool :: bool
  seen_int :: bool
  seen_uint :: bool
  seen_sint :: bool
  seen_object :: bool

definition seen_nothing :: seen where
  "seen_nothing =
     \<lparr>seen_null = False, seen_nan = False, seen_bool = False, seen_int = False, seen_uint = False, seen_sint = False,
      seen_object = False\<rparr>"

definition saw_int :: "int \<Rightarrow> seen \<Rightarrow> seen" where
  "saw_int val s =
     s\<lparr>seen_uint := seen_uint s \<or> (2 ^ 63 - 1 < val \<and> val \<le> 2 ^ 64 - 1),
       seen_sint := seen_sint s \<or> (- (2 ^ 63) \<le> val \<and> val < 0)\<rparr>"

fun scan :: "seen \<Rightarrow> cell list \<Rightarrow> seen" where
  "scan s [] = s"
| "scan s (PyNone # vs) = scan (s\<lparr>seen_null := True\<rparr>) vs"
| "scan s (NaN # vs) = scan (s\<lparr>seen_nan := True\<rparr>) vs"
| "scan s (PyBool b # vs) = scan (s\<lparr>seen_bool := True\<rparr>) vs"
| "scan s (PyInt val # vs) =
     (if seen_null s then scan (s\<lparr>seen_int := True\<rparr>) vs
      else (let s' = saw_int val (s\<lparr>seen_int := True\<rparr>)
            in if (seen_uint s' \<and> seen_sint s') \<or> val > 2 ^ 64 - 1 \<or> val < - (2 ^ 63)
               then s'\<lparr>seen_object := True\<rparr> else scan s' vs))"
| "scan s (v # vs) = s\<lparr>seen_object := True\<rparr>"

text \<open>
  The dtype the column gets. A bool beside anything else gives object; ints beside
  \<^verbatim>\<open>None\<close> or NaN give float64, as do NaN alone and NaN beside \<^verbatim>\<open>None\<close>;
  \<^verbatim>\<open>None\<close> alone stays object; ints alone give int64 or uint64.
\<close>

datatype dtype = Int64 | Float64 | Bool | Object

definition dtype_of :: "seen \<Rightarrow> dtype" where
  "dtype_of s =
     (if seen_bool s
      then (if seen_null s \<or> seen_nan s \<or> seen_int s \<or> seen_object s then Object else Bool)
      else if seen_object s then Object
      else if seen_null s \<or> seen_nan s then (if seen_int s \<or> seen_nan s then Float64 else Object)
      else if seen_int s then Int64
      else Object)"

text \<open>How a cell is stored in a column of the dtype.\<close>

fun store :: "dtype \<Rightarrow> cell \<Rightarrow> cell" where
  "store Int64 (PyInt n) = NpInt n"
| "store Float64 (PyInt n) = PyFloat (round_float n)"
| "store Float64 PyNone = NaN"
| "store dt v = v"

definition infer_cell :: "cell list \<Rightarrow> cell \<Rightarrow> cell" where
  "infer_cell vs v = store (dtype_of (scan seen_nothing vs)) v"

definition record_cell :: "pydict \<Rightarrow> string \<Rightarrow> cell" where
  "record_cell d c = (case map_of d c of None \<Rightarrow> NaN | Some j \<Rightarrow> to_cell j)"

definition raw_row :: "string list \<Rightarrow> pydict \<Rightarrow> row" where
  "raw_row cols d = map (\<lambda>c. (c, record_cell d c)) cols"

definition DataFrame :: "pydict list \<Rightarrow> df" where
  "DataFrame records =
     (let cols = unique_keys [] (concat (map (map fst) records));
          raw = map (raw_row cols) records
      in \<lparr>columns = cols,
          rows = map (map (\<lambda>(c, v). (c, infer_cell (column c raw) v))) raw\<rparr>)"

subsection \<open>\<^verbatim>\<open>rename\<close>, \<^verbatim>\<open>sort_values\<close>, \<^verbatim>\<open>drop_duplicates\<close>\<close>

definition rename :: "string \<Rightarrow> string \<Rightarrow> df \<Rightarrow> df" where
  "rename old new t =
     \<lparr>columns = map (\<lambda>c. if c = old then new else c) (columns t),
      rows = map (map (\<lambda>(c, v). (if c = old then new else c, v))) (rows t)\<rparr>"

fun is_str :: "cell \<Rightarrow> bool" where
  "is_str (PyStr s) = True"
| "is_str _ = False"

fun str_of :: "cell \<Rightarrow> string" where
  "str_of (PyStr s) = s"
| "str_of _ = []"

text \<open>
  \<^verbatim>\<open>df.sort_values(col)\<close>: KeyError when the label is no column. Only a column of
  strings is modelled: it is sorted ascending by code point. Rows with equal keys
  stay in their given order here; pandas sorts with quicksort by default and
  promises no order among them, and no property below depends on that order. The
  source sorts by \<^verbatim>\<open>category\<close>, which holds strings only (\<open>frame_category\<close>
  below); the last branch stands for every other column and is never taken from the
  source.
\<close>

definition sort_values :: "string \<Rightarrow> df \<Rightarrow> error + df" where
  "sort_values col t =
     (if col \<notin> set (columns t) then Inl (KeyError col)
      else if \<forall>v \<in> set (column col (rows t)). is_str v
        then Inr (t\<lparr>rows := sort_key (\<lambda>r. str_of (getc r col)) (rows t)\<rparr>)
      else Inl TypeError)"

text \<open>
  The key under which pandas looks for duplicates: two cells are duplicates when
  Python's \<^verbatim>\<open>==\<close> holds between them (pandas hashes the cells, takes an
  unhashable list or dict to hash 0 and then compares), and NaN counts as equal to
  NaN. So \<^verbatim>\<open>True\<close> is \<open>1\<close> and \<^verbatim>\<open>False\<close> is \<open>0\<close>, also inside a list
  or dict, and the order of the items of a dict does not matter. \<open>py_key\<close> maps
  equal cells, and no others, to one value; the items of a dict (its keys are
  distinct) are put in the order of their keys.
\<close>

fun json_key :: "json \<Rightarrow> json"
  and json_key_list :: "json list \<Rightarrow> json list"
  and json_key_items :: "(string \<times> json) list \<Rightarrow> (string \<times> json) list" where
  "json_key JNull = JNull"
| "json_key (JBool b) = JInt (if b then 1 else 0)"
| "json_key (JInt i) = JInt i"
| "json_key (JStr s) = JStr s"
| "json_key (JArr xs) = JArr (json_key_list xs)"
| "json_key (JObj d) = JObj (sort_key fst (json_key_items d))"
| "json_key_list [] = []"
| "json_key_list (x # xs) = json_key x # json_key_list xs"
| "json_key_items [] = []"
| "json_key_items (kv # d) = (fst kv, json_key (snd kv)) # json_key_items d"

fun py_key :: "cell \<Rightarrow> cell" where
  "py_key (PyBool b) = PyInt (if b then 1 else 0)"
| "py_key (NpInt i) = PyInt i"
| "py_key (PyFloat i) = PyInt i"
| "py_key (PyNested j) = PyNested (json_key j)"
| "py_key v = v"

fun keep_last :: "('a \<Rightarrow> 'k) \<Rightarrow> 'a list \<Rightarrow> 'a list" where
  "keep_last f [] = []"
| "keep_last f (r # rs) = (if f r \<in> f ` set rs then keep_last f rs else r # keep_last f rs)"

text \<open>\<^verbatim>\<open>df.drop_duplicates(subset=col, keep='last')\<close>.\<close>

definition drop_duplicates :: "string \<Rightarrow> df \<Rightarrow> error + df" where
  "drop_duplicates col t =
     (if col \<notin> set (columns t) then Inl (KeyError col)
      else Inr (t\<lparr>rows := keep_last (\<lambda>r. py_key (getc r col)) (rows t)\<rparr>))"

subsection \<open>Adding and selecting columns\<close>

text \<open>\<^verbatim>\<open>df[col] = value\<close> for a label that is no column yet.\<close>

definition add_column :: "string \<Rightarrow> cell \<Rightarrow> df \<Rightarrow> df" where
  "add_column col v t =
     \<lparr>columns = columns t @ [col], rows = map (\<lambda>r. r @ [(col, v)]) (rows t)\<rparr>"

text \<open>\<^verbatim>\<open>df[list_of_labels]\<close>.\<close>

definition getitem :: "string list \<Rightarrow> df \<Rightarrow> error + df" where
  "getitem cols t =
     (case filter (\<lambda>c. c \<notin> set (columns t)) cols of
        [] \<Rightarrow> Inr \<lparr>columns = cols, rows = map (\<lambda>r. map (\<lambda>c. (c, getc r c)) cols) (rows t)\<rparr>
      | c # cs \<Rightarrow> Inl (KeyError c))"

section \<open>\<^verbatim>\<open>merge_json_files\<close>\<close>

definition required_columns :: "string list" where
  "required_columns = [''sku'', ''name'', ''brand'', ''category'']"

text \<open>Lines 77 to 80: the loop that creates each missing required column.\<close>

fun ensure_columns :: "string list \<Rightarrow> df \<Rightarrow> diag list \<times> df" where
  "ensure_columns [] t = ([], t)"
| "ensure_columns (col # cols) t =
     (if col \<notin> set (columns t)
      then (let (out, t') = ensure_columns cols (add_column col (PyStr []) t)
            in (WarnMissingColumn col # out, t'))
      else ensure_columns cols t)"

text \<open>Lines 65 to 69: the frame of all records, with \<^verbatim>\<open>id\<close> renamed to \<^verbatim>\<open>sku\<close>.\<close>

definition frame_of :: "pydict list \<Rightarrow> df" where
  "frame_of all_records =
     (let t = DataFrame all_records
      in if ''id'' \<in> set (columns t) \<and> ''sku'' \<notin> set (columns t)
         then rename ''id'' ''sku'' t else t)"

text \<open>Line 73.\<close>

definition dedup :: "df \<Rightarrow> error + df" where
  "dedup t =
     (case sort_values ''category'' t of
        Inl e \<Rightarrow> Inl e
      | Inr s \<Rightarrow> drop_duplicates ''sku'' s)"

text \<open>
  The function takes the paths with what loading each gives, and returns what it
  printed together with the raised exception or the returned table.
\<close>

definition merge_json_files :: "(string \<times> load) list \<Rightarrow> diag list \<times> (error + df)" where
  "merge_json_files json_files =
     (let (out, all_records) = collect json_files
      in case dedup (frame_of all_records) of
           Inl e \<Rightarrow> (out, Inl e)
         | Inr t \<Rightarrow>
             (let (warnings, t') = ensure_columns required_columns t
              in (out @ warnings, getitem required_columns t')))"

section \<open>\<^verbatim>\<open>join_csv_files\<close>\<close>

subsection \<open>\<^verbatim>\<open>astype(str)\<close>\<close>

text \<open>The decimal digits of an integer that is not negative.\<close>

function str_nat :: "int \<Rightarrow> string" where
  "str_nat n = (if n < 10 then [char_of (48 + n)] else str_nat (n div 10) @ [char_of (48 + n mod 10)])"
  by pat_completeness auto
termination
  by (relation "measure nat") auto

definition str_int :: "int \<Rightarrow> string" where
  "str_int i = (if i < 0 then CHR ''-'' # str_nat (- i) else str_nat i)"

fun join_comma :: "string list \<Rightarrow> string" where
  "join_comma [] = []"
| "join_comma [s] = s"
| "join_comma (s # t # ts) = s @ '', '' @ join_comma (t # ts)"

text \<open>
  \<^verbatim>\<open>repr\<close> of a string: between single quotes, or between double quotes when it
  holds a single quote and no double quote; the backslash, the quote in use, tab,
  newline and carriage return are escaped, and any other ASCII control character is
  written \<^verbatim>\<open>\xhh\<close>. The bytes of a character beyond ASCII are kept, as Python
  keeps a printable character.
\<close>

definition hex_digit :: "nat \<Rightarrow> char" where
  "hex_digit n = (if n < 10 then char_of (48 + n) else char_of (87 + n))"

definition printable :: "char \<Rightarrow> bool" where
  "printable c =
     (let n = (of_char c :: nat) in (32 \<le> n \<and> n < 127) \<or> 128 \<le> n)"

definition repr_char :: "char \<Rightarrow> char \<Rightarrow> string" where
  "repr_char quote c =
     (if c = quote \<or> c = CHR 0x5C then [CHR 0x5C, c]
      else if c = CHR 0x09 then [CHR 0x5C, CHR ''t'']
      else if c = CHR 0x0A then [CHR 0x5C, CHR ''n'']
      else if c = CHR 0x0D then [CHR 0x5C, CHR ''r'']
      else if printable c then [c]
      else [CHR 0x5C, CHR ''x'', hex_digit (of_char c div 16), hex_digit (of_char c mod 16)])"

definition repr_str :: "string \<Rightarrow> string" where
  "repr_str s =
     (let quote = (if CHR 0x27 \<in> set s \<and> CHR 0x22 \<notin> set s then CHR 0x22 else CHR 0x27)
      in [quote] @ concat (map (repr_char quote) s) @ [quote])"

text \<open>\<^verbatim>\<open>str\<close> of a list or dict.\<close>

fun py_repr :: "json \<Rightarrow> string"
  and py_repr_list :: "json list \<Rightarrow> string list"
  and py_repr_items :: "(string \<times> json) list \<Rightarrow> string list" where
  "py_repr JNull = ''None''"
| "py_repr (JBool b) = (if b then ''True'' else ''False'')"
| "py_repr (JInt i) = str_int i"
| "py_repr (JStr s) = repr_str s"
| "py_repr (JArr xs) = ''['' @ join_comma (py_repr_list xs) @ '']''"
| "py_repr (JObj d) = ''{'' @ join_comma (py_repr_items d) @ ''}''"
| "py_repr_list [] = []"
| "py_repr_list (x # xs) = py_repr x # py_repr_list xs"
| "py_repr_items [] = []"
| "py_repr_items (kv # d) = (repr_str (fst kv) @ '': '' @ py_repr (snd kv)) # py_repr_items d"

text \<open>
  \<^verbatim>\<open>str\<close> of a float64 whose value is the integer \<open>i\<close>. Below \<open>10 ^ 16\<close> it
  is the digits of \<open>i\<close> and \<^verbatim>\<open>.0\<close>. From \<open>10 ^ 16\<close> on it is the exponent
  form of the shortest decimal that still rounds to the same float, the nearest to
  it among those: \<open>a\<close> is the magnitude, \<open>e\<close> the binary exponent of its last
  bit, and a decimal \<open>v\<close> rounds to \<open>a\<close> when it lies within half a step above
  and below (a quarter step below a power of two), the ends counting when the
  significand is even.
\<close>

definition rounds_to :: "int \<Rightarrow> int \<Rightarrow> bool" where
  "rounds_to a v =
     (let e = bit_length a - 53; m = a div 2 ^ e;
          up = 2 ^ (e - 1); down = (if m = 2 ^ 52 then 2 ^ (e - 2) else 2 ^ (e - 1))
      in if even m then a - down \<le> v \<and> v \<le> a + up else a - down < v \<and> v < a + up)"

text \<open>
  The decimal of \<open>n\<close> significant digits nearest to \<open>a\<close> that rounds to \<open>a\<close>,
  if there is one: one of the two multiples of \<open>10 ^ (len - n)\<close> around \<open>a\<close>,
  where \<open>len\<close> is the number of digits of \<open>a\<close>.
\<close>

definition short_decimal :: "int \<Rightarrow> nat \<Rightarrow> int option" where
  "short_decimal a n =
     (let p = 10 ^ (length (str_nat a) - n); lo = (a div p) * p; hi = lo + p
      in if rounds_to a lo \<and> rounds_to a hi
         then (if a - lo < hi - a \<or> (a - lo = hi - a \<and> even (a div p)) then Some lo else Some hi)
         else if rounds_to a lo then Some lo
         else if rounds_to a hi then Some hi
         else None)"

fun shortest_decimal :: "int \<Rightarrow> nat list \<Rightarrow> int" where
  "shortest_decimal a [] = a"
| "shortest_decimal a (n # ns) =
     (case short_decimal a n of None \<Rightarrow> shortest_decimal a ns | Some v \<Rightarrow> v)"

fun strip_zeros :: "string \<Rightarrow> string" where
  "strip_zeros s = rev (dropWhile (\<lambda>c. c = CHR ''0'') (rev s))"

definition exponent_form :: "int \<Rightarrow> string" where
  "exponent_form v =
     (let ds = str_nat v; frac = strip_zeros (tl ds); ex = str_nat (int (length ds) - 1)
      in [hd ds] @ (if frac = [] then [] else CHR ''.'' # frac) @ ''e+'' @
         (if length ex < 2 then CHR ''0'' # ex else ex))"

definition repr_float :: "int \<Rightarrow> string" where
  "repr_float i =
     (if \<bar>i\<bar> < 10 ^ 16 then str_int i @ ''.0''
      else (if i < 0 then ''-'' else []) @
           exponent_form (shortest_decimal \<bar>i\<bar> [1 ..< 18]))"

text \<open>The text \<^verbatim>\<open>astype(str)\<close> gives for a cell.\<close>

fun py_str :: "cell \<Rightarrow> string" where
  "py_str NaN = ''nan''"
| "py_str PyNone = ''None''"
| "py_str (PyBool b) = (if b then ''True'' else ''False'')"
| "py_str (PyInt i) = str_int i"
| "py_str (NpInt i) = str_int i"
| "py_str (PyFloat i) = repr_float i"
| "py_str (PyStr s) = s"
| "py_str (PyNested j) = py_repr j"

text \<open>\<^verbatim>\<open>df[col] = df[col].astype(str)\<close>: the column is overwritten where it stands.\<close>

definition astype_row :: "string \<Rightarrow> row \<Rightarrow> row" where
  "astype_row col r = map (\<lambda>(c, v). (c, if c = col then PyStr (py_str v) else v)) r"

definition astype_str :: "string \<Rightarrow> df \<Rightarrow> df" where
  "astype_str col t = t\<lparr>rows := map (astype_row col) (rows t)\<rparr>"

subsection \<open>\<^verbatim>\<open>pd.merge(left, right, left_on, right_on, how='left')\<close>\<close>

text \<open>
  The labels that the suffixes \<^verbatim>\<open>_x\<close> and \<^verbatim>\<open>_y\<close> turn into duplicates:
  a label that repeats an earlier one after the renaming, and did not before it.
\<close>

fun suffix_dups :: "string list \<Rightarrow> string list \<Rightarrow> (string \<times> string) list \<Rightarrow> string list" where
  "suffix_dups seen_new seen_old [] = []"
| "suffix_dups seen_new seen_old ((new, old) # ls) =
     (if new \<in> set seen_new \<and> old \<notin> set seen_old then [new] else []) @
     suffix_dups (new # seen_new) (old # seen_old) ls"

definition drop_label :: "string \<Rightarrow> df \<Rightarrow> df" where
  "drop_label col t =
     \<lparr>columns = filter (\<lambda>c. c \<noteq> col) (columns t),
      rows = map (filter (\<lambda>(c, v). c \<noteq> col)) (rows t)\<rparr>"

definition relabel :: "string list \<Rightarrow> string \<Rightarrow> row \<Rightarrow> row" where
  "relabel to_rename suffix r = map (\<lambda>(c, v). (if c \<in> set to_rename then c @ suffix else c, v)) r"

text \<open>
  The rows of a left join: every left row, in order, is followed by each right row
  with an equal key, in order, or by missing values when there is none. \<open>lrow\<close>
  and \<open>rrow\<close> put the labels of the result on a row of either side.
\<close>

definition matches :: "string \<Rightarrow> string \<Rightarrow> row list \<Rightarrow> row \<Rightarrow> row list" where
  "matches left_on right_on rights l =
     filter (\<lambda>r. py_key (getc r right_on) = py_key (getc l left_on)) rights"

definition left_join_rows ::
  "string \<Rightarrow> string \<Rightarrow> (row \<Rightarrow> row) \<Rightarrow> (row \<Rightarrow> row) \<Rightarrow> row \<Rightarrow> row list \<Rightarrow> row list \<Rightarrow> row list" where
  "left_join_rows left_on right_on lrow rrow nulls lefts rights =
     concat (map (\<lambda>l.
       (case matches left_on right_on rights l of
          [] \<Rightarrow> [lrow l @ nulls]
        | m # ms \<Rightarrow> map (\<lambda>r. lrow l @ rrow r) (m # ms))) lefts)"

text \<open>
  A right column that receives a missing value is widened so that it can hold NaN:
  int64 and uint64 become float64; float64 and object columns stay, and a bool
  column becomes object with its cells as they are.
\<close>

fun widen :: "cell \<Rightarrow> cell" where
  "widen (NpInt i) = PyFloat (round_float i)"
| "widen v = v"

definition widen_row :: "bool \<Rightarrow> row \<Rightarrow> row" where
  "widen_row fill r = (if fill then map (\<lambda>(c, v). (c, widen v)) r else r)"

text \<open>
  A left join on one key column each. A missing key label raises KeyError. When
  both keys carry the same label the right key column is dropped and the left one
  stands for both. Labels on both sides get the suffixes, and a duplicate label that
  the suffixes create raises MergeError. Keys are compared as Python objects (the
  source passes two columns of strings). When some left row has no match, the
  right columns are widened.
\<close>

definition pd_merge :: "df \<Rightarrow> df \<Rightarrow> string \<Rightarrow> string \<Rightarrow> error + df" where
  "pd_merge left right left_on right_on =
     (if right_on \<notin> set (columns right) then Inl (KeyError right_on)
      else if left_on \<notin> set (columns left) then Inl (KeyError left_on)
      else
        (let right' = (if left_on = right_on then drop_label right_on right else right);
             to_rename = filter (\<lambda>c. c \<in> set (columns right')) (columns left);
             llabels = map (\<lambda>c. if c \<in> set to_rename then c @ ''_x'' else c) (columns left);
             rlabels = map (\<lambda>c. if c \<in> set to_rename then c @ ''_y'' else c) (columns right');
             fill = (\<exists>l \<in> set (rows left). matches left_on right_on (rows right) l = [])
         in if suffix_dups [] [] (zip llabels (columns left)) @
               suffix_dups [] [] (zip rlabels (columns right')) \<noteq> []
            then Inl MergeError
            else Inr \<lparr>columns = llabels @ rlabels,
                      rows = left_join_rows left_on right_on
                        (relabel to_rename ''_x'')
                        (\<lambda>r. relabel to_rename ''_y''
                               (widen_row fill
                                  (if left_on = right_on then filter (\<lambda>(c, v). c \<noteq> right_on) r else r)))
                        (map (\<lambda>c. (c, NaN)) rlabels)
                        (rows left) (rows right)\<rparr>))"

subsection \<open>The function\<close>

text \<open>Lines 100 to 109: the key column on the CSV side, and what is printed.\<close>

definition join_column_of :: "string list \<Rightarrow> diag list \<times> string" where
  "join_column_of cols =
     (if ''product_sku'' \<in> set cols then ([], ''product_sku'')
      else (case filter (\<lambda>col. contains (lower col) ''sku'') cols of
              [] \<Rightarrow> ([WarnNoProductSku, AvailableColumns cols], ''product_sku'')
            | c # cs \<Rightarrow> ([UsingColumn c], c)))"

text \<open>
  The function takes the catalog table and what \<^verbatim>\<open>pd.read_csv\<close> gives for the
  path: an exception or the table read. It returns what it printed, the catalog
  table as the caller finds it afterwards (line 116 assigns into the caller's
  object), and the raised exception or the joined table.
\<close>

definition join_csv_files :: "df \<Rightarrow> error + df \<Rightarrow> diag list \<times> df \<times> (error + df)" where
  "join_csv_files merged_df csv =
     (case csv of
        Inl e \<Rightarrow> ([], merged_df, Inl e)
      | Inr input_df \<Rightarrow>
          (let (out, join_column) = join_column_of (columns input_df);
               input_df' = (if join_column \<in> set (columns input_df)
                            then astype_str join_column input_df else input_df);
               merged_df' = (if ''sku'' \<in> set (columns merged_df)
                             then astype_str ''sku'' merged_df else merged_df)
           in (out, merged_df', pd_merge input_df' merged_df' join_column ''sku'')))"

section \<open>\<^verbatim>\<open>find_json_files\<close>\<close>

text \<open>
  What lies at a path: a file, or a directory with its entries in the order
  \<^verbatim>\<open>os.walk\<close> meets them. Symbolic links and unreadable directories are left out.
\<close>

datatype node = File | Dir "(string \<times> node) list"

definition exclude_dirs :: "string list" where
  "exclude_dirs = [''_MACOSX'', ''.DS_Store'']"

fun is_dir :: "node \<Rightarrow> bool" where
  "is_dir (Dir es) = True"
| "is_dir File = False"

text \<open>Lines 27 to 29 for one directory: its own files.\<close>

definition json_here :: "string \<Rightarrow> (string \<times> node) list \<Rightarrow> string list" where
  "json_here root entries =
     map (path_join root)
       (filter (\<lambda>file. endswith file ''.json'')
          (map fst (filter (\<lambda>e. \<not> is_dir (snd e)) entries)))"

text \<open>
  The loop over \<^verbatim>\<open>os.walk(base_dir)\<close>, top down: the files of a directory, then
  each of its subdirectories that line 25 leaves in \<^verbatim>\<open>dirs\<close>. Walking a path
  that is no directory yields nothing.
\<close>

fun walk :: "string \<Rightarrow> node \<Rightarrow> string list"
  and walk_dirs :: "string \<Rightarrow> (string \<times> node) list \<Rightarrow> string list" where
  "walk root File = []"
| "walk root (Dir entries) = json_here root entries @ walk_dirs root entries"
| "walk_dirs root [] = []"
| "walk_dirs root (e # es) =
     (if is_dir (snd e) \<and> fst e \<notin> set exclude_dirs
      then walk (path_join root (fst e)) (snd e) else []) @ walk_dirs root es"

text \<open>
  The first argument is what lies at \<^verbatim>\<open>base_dir\<close>, \<open>None\<close> when
  \<^verbatim>\<open>os.path.exists\<close> is false.
\<close>

definition find_json_files :: "node option \<Rightarrow> string \<Rightarrow> diag list \<times> string list" where
  "find_json_files at_base base_dir =
     (case at_base of
        None \<Rightarrow> ([WarnNoDirectory base_dir], [])
      | Some n \<Rightarrow> ([], sort (walk base_dir n)))"

section \<open>Notions used to state the properties\<close>

text \<open>A table in which every row has exactly one cell under each label, in order.\<close>

definition well_formed :: "df \<Rightarrow> bool" where
  "well_formed t = (\<forall>r \<in> set (rows t). map fst r = columns t)"

text \<open>
  The row that \<open>merge_json_files\<close> returns for a row of the frame whose labels are
  \<open>cols\<close>: the four required columns, with the empty string under a label the
  frame does not have.
\<close>

definition output_row :: "string list \<Rightarrow> row \<Rightarrow> row" where
  "output_row cols r =
     map (\<lambda>c. (c, if c \<in> set cols then getc r c else PyStr [])) required_columns"

text \<open>The keys line 73 works with: the category it sorts by, the sku it groups by.\<close>

definition category_key :: "row \<Rightarrow> string" where
  "category_key r = str_of (getc r ''category'')"

definition sku_key :: "row \<Rightarrow> cell" where
  "sku_key r = py_key (getc r ''sku'')"

text \<open>
  The contract of file discovery as the specification words it, to compare with
  \<open>find_json_files\<close>: every file below the base directory, with the names of the
  directories passed on the way down, its own name and its full path.
\<close>

fun files_under :: "string \<Rightarrow> node \<Rightarrow> (string list \<times> string \<times> string) list"
  and entries_under :: "string \<Rightarrow> (string \<times> node) list \<Rightarrow> (string list \<times> string \<times> string) list" where
  "files_under root File = []"
| "files_under root (Dir entries) = entries_under root entries"
| "entries_under root [] = []"
| "entries_under root (e # es) =
     (if is_dir (snd e)
      then map (\<lambda>(ds, file, p). (fst e # ds, file, p)) (files_under (path_join root (fst e)) (snd e))
      else [([], fst e, path_join root (fst e))]) @ entries_under root es"

text \<open>
  The files the contract asks for: the name ends in \<^verbatim>\<open>.json\<close>, no directory
  passed on the way is named \<^verbatim>\<open>_MACOSX\<close> or \<^verbatim>\<open>.DS_Store\<close>, and the file
  itself is not named \<^verbatim>\<open>.DS_Store\<close>.
\<close>

definition wanted :: "string list \<times> string \<times> string \<Rightarrow> bool" where
  "wanted = (\<lambda>(ds, file, p). endswith file ''.json'' \<and> ''_MACOSX'' \<notin> set ds \<and>
                ''.DS_Store'' \<notin> set ds \<and> file \<noteq> ''.DS_Store'')"

text \<open>The sorted paths of the wanted files.\<close>

definition spec_listing :: "string \<Rightarrow> node \<Rightarrow> string list" where
  "spec_listing base n = sort (map (\<lambda>(ds, file, p). p) (filter wanted (files_under base n)))"

subsection \<open>Example inputs\<close>

text \<open>
  The end-to-end example of the specification: two catalog files with the
  identifiers 1 and 2, and a CSV whose \<^verbatim>\<open>product_sku\<close> column holds 1, 2, 3.
\<close>

definition e2e_files :: "(string \<times> load) list" where
  "e2e_files =
     [(''data/a.json'', Loaded (JArr [JObj [(''id'', JInt 1), (''name'', JStr ''Widget''), (''brand'', JStr ''Acme'')]])),
      (''data/b.json'', Loaded (JArr [JObj [(''id'', JInt 2), (''name'', JStr ''Gadget''), (''brand'', JStr ''Zenith'')]]))]"

definition e2e_catalog :: df where
  "e2e_catalog =
     \<lparr>columns = [''sku'', ''name'', ''brand'', ''category''],
        rows = [[(''sku'', NpInt 1), (''name'', PyStr ''Widget''), (''brand'', PyStr ''Acme''), (''category'', PyStr ''a'')],
                [(''sku'', NpInt 2), (''name'', PyStr ''Gadget''), (''brand'', PyStr ''Zenith''), (''category'', PyStr ''b'')]]\<rparr>"

definition e2e_csv :: df where
  "e2e_csv =
     \<lparr>columns = [''product_sku''],
        rows = [[(''product_sku'', NpInt 1)], [(''product_sku'', NpInt 2)], [(''product_sku'', NpInt 3)]]\<rparr>"

text \<open>
  Two catalog files whose identifiers differ as values and agree as text: the
  integer 1 and the string \<^verbatim>\<open>"1"\<close>; and a CSV with the one key 1.
\<close>

definition clash_files :: "(string \<times> load) list" where
  "clash_files =
     [(''data/a.json'', Loaded (JArr [JObj [(''sku'', JInt 1), (''name'', JStr ''Widget''), (''brand'', JStr ''Acme'')]])),
      (''data/b.json'', Loaded (JArr [JObj [(''sku'', JStr ''1''), (''name'', JStr ''Gadget''), (''brand'', JStr ''Zenith'')]]))]"

definition clash_catalog :: df where
  "clash_catalog =
     \<lparr>columns = [''sku'', ''name'', ''brand'', ''category''],
        rows = [[(''sku'', PyInt 1), (''name'', PyStr ''Widget''), (''brand'', PyStr ''Acme''), (''category'', PyStr ''a'')],
                [(''sku'', PyStr ''1''), (''name'', PyStr ''Gadget''), (''brand'', PyStr ''Zenith''), (''category'', PyStr ''b'')]]\<rparr>"

definition one_key_csv :: df where
  "one_key_csv = \<lparr>columns = [''product_sku''], rows = [[(''product_sku'', NpInt 1)]]\<rparr>"

text \<open>
  A catalog whose sku is the string \<^verbatim>\<open>"100"\<close> and a CSV whose key is the integer
  100.
\<close>

definition text_catalog :: df where
  "text_catalog =
     \<lparr>columns = [''sku'', ''name'', ''brand'', ''category''],
        rows = [[(''sku'', PyStr ''100''), (''name'', PyStr ''Drill''), (''brand'', PyStr ''Acme''),
                 (''category'', PyStr ''tools'')]]\<rparr>"

definition int_key_csv :: df where
  "int_key_csv =
     \<lparr>columns = [''product_sku'', ''qty''], rows = [[(''product_sku'', NpInt 100), (''qty'', NpInt 2)]]\<rparr>"

section \<open>The reading loop\<close>


lemma map_of_dict_set: "map_of (dict_set k v d) k = Some v"
  by (induction d) auto

lemma tag_items_category:
  "tag_items cat items = Some ds \<Longrightarrow> d \<in> set ds \<Longrightarrow> map_of d ''category'' = Some (JStr cat)"
proof (induction items arbitrary: ds)
  case Nil
  then show ?case by simp
next
  case (Cons item items)
  then show ?case
    by (cases item) (auto simp: map_of_dict_set split: option.splits)
qed

lemma process_data_category:
  "process_data cat data = Some ds \<Longrightarrow> d \<in> set ds \<Longrightarrow> map_of d ''category'' = Some (JStr cat)"
  by (cases data) (auto dest: tag_items_category split: if_splits)

lemma collect_category:
  "d \<in> set (snd (collect files)) \<Longrightarrow>
   \<exists>(p, l) \<in> set files. process_file p l \<noteq> None \<and> map_of d ''category'' = Some (JStr (category_of p))"
proof (induction files)
  case Nil
  then show ?case by simp
next
  case (Cons f files)
  obtain p l where f: "f = (p, l)" by (cases f)
  show ?case
  proof (cases "process_file p l")
    case None
    with Cons f show ?thesis by (auto split: prod.splits)
  next
    case (Some ds)
    with Cons.prems f have "d \<in> set ds \<or> d \<in> set (snd (collect files))"
      by (auto split: prod.splits)
    then show ?thesis
    proof
      assume "d \<in> set ds"
      with Some have "map_of d ''category'' = Some (JStr (category_of p))"
        by (auto simp: process_file_def dest: process_data_category split: load.splits)
      with Some f show ?thesis by auto
    next
      assume "d \<in> set (snd (collect files))"
      from Cons.IH[OF this] f show ?thesis by auto
    qed
  qed
qed

section \<open>Building and normalising the frame\<close>

lemma set_unique_keys: "set (unique_keys seen ks) = set ks - set seen"
  by (induction seen ks rule: unique_keys.induct) auto

lemma distinct_unique_keys: "distinct (unique_keys seen ks)"
  by (induction seen ks rule: unique_keys.induct) (auto simp: set_unique_keys)

lemma getc_tabulate: "getc (map (\<lambda>c. (c, f c)) cols) c = (if c \<in> set cols then f c else NaN)"
  by (induction cols) (auto simp: getc_def)

lemma columns_DataFrame:
  "set (columns (DataFrame records)) = (\<Union>d \<in> set records. fst ` set d)"
  by (auto simp: DataFrame_def Let_def set_unique_keys)

lemma rows_DataFrame:
  "rows (DataFrame records) =
     map (\<lambda>d. map (\<lambda>c. (c, infer_cell (map (\<lambda>d'. record_cell d' c) records) (record_cell d c)))
                  (columns (DataFrame records))) records"
proof -
  let ?cols = "unique_keys [] (concat (map (map fst) records))"
  have col: "column c (map (raw_row ?cols) records) = map (\<lambda>d'. record_cell d' c) records"
    if "c \<in> set ?cols" for c
    using that by (simp add: column_def raw_row_def getc_tabulate)
  have col': "column c (map (\<lambda>x. map (\<lambda>xa. (xa, record_cell x xa)) ?cols) records) =
      map (\<lambda>d'. record_cell d' c) records" if "c \<in> set ?cols" for c
    using col [OF that] by (simp add: raw_row_def [abs_def])
  show ?thesis
    by (simp add: DataFrame_def Let_def raw_row_def comp_def col' cong: map_cong)
qed

lemma well_formed_DataFrame: "well_formed (DataFrame records)"
  by (simp add: well_formed_def rows_DataFrame comp_def)

lemma distinct_columns_DataFrame: "distinct (columns (DataFrame records))"
  by (simp add: DataFrame_def Let_def distinct_unique_keys)

lemma dedup_Inr:
  assumes "dedup t = Inr k"
  shows "columns k = columns t"
    and "rows k = keep_last sku_key (sort_key category_key (rows t))"
    and "''sku'' \<in> set (columns t)" and "''category'' \<in> set (columns t)"
  using assms
  by (auto simp: dedup_def sort_values_def drop_duplicates_def sku_key_def [abs_def] category_key_def [abs_def]
      split: sum.splits if_splits)

lemma ensure_columns_eq:
  "distinct cols \<Longrightarrow>
   ensure_columns cols t =
     (map WarnMissingColumn (filter (\<lambda>c. c \<notin> set (columns t)) cols),
      \<lparr>columns = columns t @ filter (\<lambda>c. c \<notin> set (columns t)) cols,
         rows = map (\<lambda>r. r @ map (\<lambda>c. (c, PyStr [])) (filter (\<lambda>c. c \<notin> set (columns t)) cols)) (rows t)\<rparr>)"
proof (induction cols arbitrary: t)
  case Nil
  then show ?case by simp
next
  case (Cons col cols)
  have same: "filter (\<lambda>c. c \<notin> set (columns (add_column col v t))) cols = filter (\<lambda>c. c \<notin> set (columns t)) cols" for v
    using Cons.prems by (auto simp: add_column_def intro: filter_cong)
  show ?case
  proof (cases "col \<in> set (columns t)")
    case True
    with Cons show ?thesis by simp
  next
    case False
    with Cons show ?thesis
      by (simp add: same) (simp add: add_column_def)
  qed
qed

lemma getitem_Inr:
  "set cols \<subseteq> set (columns t) \<Longrightarrow>
   getitem cols t = Inr \<lparr>columns = cols, rows = map (\<lambda>r. map (\<lambda>c. (c, getc r c)) cols) (rows t)\<rparr>"
proof -
  assume "set cols \<subseteq> set (columns t)"
  then have "filter (\<lambda>c. c \<notin> set (columns t)) cols = []"
    by (auto simp: filter_empty_conv)
  then show ?thesis by (simp add: getitem_def)
qed

lemma getc_append_new:
  assumes "map fst r = cols"
  shows "getc (r @ map (\<lambda>c. (c, v)) (filter (\<lambda>c. c \<notin> set cols) req)) c =
         (if c \<in> set cols then getc r c else if c \<in> set req then v else NaN)"
proof -
  have dom: "(map_of r c = None) = (c \<notin> set cols)"
    using assms by (force simp: map_of_eq_None_iff)
  have m: "map_of (map (\<lambda>c. (c, v)) (filter (\<lambda>c. c \<notin> set cols) req)) c =
        (if c \<in> set req \<and> c \<notin> set cols then Some v else None)"
    by (induction req) auto
  show ?thesis
    using dom m by (auto simp: getc_def map_add_def split: option.splits)
qed

lemma well_formed_rename: "well_formed t \<Longrightarrow> well_formed (rename old new t)"
proof -
  have "map fst (map (\<lambda>(c, v). (if c = old then new else c, v)) r) =
        map (\<lambda>c. if c = old then new else c) (map fst r)" for r :: row
    by (induction r) auto
  note m = this
  assume "well_formed t"
  then show "well_formed (rename old new t)"
    unfolding well_formed_def rename_def by (auto simp only: m df.simps set_map)
qed

lemma well_formed_frame_of: "well_formed (frame_of records)"
  by (simp add: frame_of_def Let_def well_formed_rename well_formed_DataFrame)

lemma set_keep_last_subset: "set (keep_last f xs) \<subseteq> set xs"
  by (induction xs) auto

lemma image_keep_last: "f ` set (keep_last f xs) = f ` set xs"
  by (induction xs) auto

lemma distinct_keep_last: "distinct (map f (keep_last f xs))"
proof (induction xs)
  case Nil
  then show ?case by simp
next
  case (Cons x xs)
  have "f x \<notin> f ` set xs \<Longrightarrow> f x \<notin> f ` set (keep_last f xs)"
    by (simp add: image_keep_last)
  with Cons show ?case by auto
qed

lemma keep_last_greatest:
  "sorted (map g xs) \<Longrightarrow> r \<in> set (keep_last f xs) \<Longrightarrow> r' \<in> set xs \<Longrightarrow> f r' = f r \<Longrightarrow> g r' \<le> g r"
proof (induction xs)
  case Nil
  then show ?case by simp
next
  case (Cons x xs)
  show ?case
  proof (cases "r \<in> set (keep_last f xs)")
    case True
    then have rin: "r \<in> set xs" using set_keep_last_subset by fast
    show ?thesis
    proof (cases "r' = x")
      case True
      with Cons.prems(1) rin show ?thesis by auto
    next
      case False
      with Cons True show ?thesis by auto
    qed
  next
    case False
    with Cons.prems(2) have rx: "r = x" and fresh: "f x \<notin> f ` set xs"
      by (auto split: if_splits)
    have "r' = x"
    proof (rule ccontr)
      assume "r' \<noteq> x"
      with Cons.prems(3) have "r' \<in> set xs" by simp
      then have "f r' \<in> f ` set xs" by (rule imageI)
      with Cons.prems(4) rx fresh show False by simp
    qed
    with rx show ?thesis by simp
  qed
qed

lemma merge_json_files_Inr:
  assumes "merge_json_files files = (out, Inr t)"
  shows "t = \<lparr>columns = required_columns,
              rows = map (output_row (columns (frame_of (snd (collect files)))))
                       (keep_last sku_key (sort_key category_key (rows (frame_of (snd (collect files))))))\<rparr>"
    and "''sku'' \<in> set (columns (frame_of (snd (collect files))))"
    and "''category'' \<in> set (columns (frame_of (snd (collect files))))"
    and "out = fst (collect files) @
           map WarnMissingColumn
             (filter (\<lambda>c. c \<notin> set (columns (frame_of (snd (collect files))))) required_columns)"
proof -
  let ?D = "frame_of (snd (collect files))"
  let ?missing = "filter (\<lambda>c. c \<notin> set (columns ?D)) required_columns"
  obtain lg recs where c: "collect files = (lg, recs)" by (cases "collect files")
  from assms c obtain k where k: "dedup ?D = Inr k"
    by (auto simp: merge_json_files_def split: sum.splits prod.splits)
  note d = dedup_Inr [OF k]
  have dist: "distinct required_columns" by (simp add: required_columns_def)
  have e: "ensure_columns required_columns k =
      (map WarnMissingColumn ?missing,
       \<lparr>columns = columns k @ ?missing, rows = map (\<lambda>r. r @ map (\<lambda>c. (c, PyStr [])) ?missing) (rows k)\<rparr>)"
    by (simp only: ensure_columns_eq [OF dist] d(1))
  let ?t' = "\<lparr>columns = columns k @ ?missing, rows = map (\<lambda>r. r @ map (\<lambda>c. (c, PyStr [])) ?missing) (rows k)\<rparr>"
  have sub: "set required_columns \<subseteq> set (columns ?t')"
    by (auto simp: d(1))
  have res: "merge_json_files files = (lg @ map WarnMissingColumn ?missing, getitem required_columns ?t')"
    using c k e by (simp add: merge_json_files_def)
  with assms have t: "Inr t = getitem required_columns ?t'" and o: "out = lg @ map WarnMissingColumn ?missing"
    by simp_all
  have wf: "\<forall>r \<in> set (rows k). map fst r = columns ?D"
  proof
    fix r assume "r \<in> set (rows k)"
    then have "r \<in> set (sort_key category_key (rows ?D))"
      using set_keep_last_subset [of sku_key "sort_key category_key (rows ?D)"]
      by (auto simp only: d(2))
    then have "r \<in> set (rows ?D)" by (simp only: set_sort)
    then show "map fst r = columns ?D"
      using well_formed_frame_of [of "snd (collect files)"] by (simp add: well_formed_def)
  qed
  have row: "map (\<lambda>c. (c, getc (r @ map (\<lambda>c. (c, PyStr [])) ?missing) c)) required_columns =
             output_row (columns ?D) r" if "r \<in> set (rows k)" for r
  proof -
    from that wf have m: "map fst r = columns ?D" by blast
    show ?thesis
      unfolding output_row_def
      by (rule map_cong [OF refl]) (simp add: getc_append_new [OF m])
  qed
  from t have "t = \<lparr>columns = required_columns,
        rows = map (\<lambda>r. map (\<lambda>c. (c, getc r c)) required_columns) (rows ?t')\<rparr>"
    by (simp only: getitem_Inr [OF sub]) simp
  also have "rows ?t' = map (\<lambda>r. r @ map (\<lambda>c. (c, PyStr [])) ?missing) (rows k)" by simp
  finally have "t = \<lparr>columns = required_columns,
        rows = map (\<lambda>r. map (\<lambda>c. (c, getc (r @ map (\<lambda>c. (c, PyStr [])) ?missing) c)) required_columns) (rows k)\<rparr>"
    by (simp add: comp_def)
  also have "map (\<lambda>r. map (\<lambda>c. (c, getc (r @ map (\<lambda>c. (c, PyStr [])) ?missing) c)) required_columns) (rows k)
      = map (output_row (columns ?D)) (rows k)"
    by (rule map_cong [OF refl]) (rule row)
  finally show "t = \<lparr>columns = required_columns,
              rows = map (output_row (columns ?D)) (keep_last sku_key (sort_key category_key (rows ?D)))\<rparr>"
    by (simp only: d(2))
  show "''sku'' \<in> set (columns ?D)" by (rule d(3))
  show "''category'' \<in> set (columns ?D)" by (rule d(4))
  show "out = fst (collect files) @ map WarnMissingColumn ?missing"
    using o c by simp
qed

lemma getc_rename_other:
  "c \<noteq> old \<Longrightarrow> c \<noteq> new \<Longrightarrow> getc (map (\<lambda>(k, v). (if k = old then new else k, v)) r) c = getc r c"
  by (induction r) (auto simp: getc_def)

lemma infer_cell_str: "infer_cell vs (PyStr s) = PyStr s"
  unfolding infer_cell_def by (cases "dtype_of (scan seen_nothing vs)") simp_all

lemma DataFrame_category:
  assumes cat: "\<forall>d \<in> set records. \<exists>s. map_of d ''category'' = Some (JStr s)"
    and r: "r \<in> set (rows (DataFrame records))"
  shows "\<exists>d \<in> set records. getc r ''category'' = record_cell d ''category''"
proof -
  let ?cols = "columns (DataFrame records)"
  from r obtain d where d: "d \<in> set records"
    and row: "r = map (\<lambda>c. (c, infer_cell (map (\<lambda>d'. record_cell d' c) records) (record_cell d c))) ?cols"
    by (subst (asm) rows_DataFrame) auto
  from cat d obtain s where s: "map_of d ''category'' = Some (JStr s)" by blast
  then have "(''category'', JStr s) \<in> set d" by (rule map_of_SomeD)
  then have "''category'' \<in> fst ` set d" by force
  with d have incols: "''category'' \<in> set ?cols"
    by (auto simp: columns_DataFrame)
  have cell: "record_cell d ''category'' = PyStr s" using s by (simp add: record_cell_def)
  have "getc r ''category'' = record_cell d ''category''"
    by (simp add: row getc_tabulate incols cell infer_cell_str)
  with d show ?thesis by blast
qed

lemma frame_of_category:
  assumes cat: "\<forall>d \<in> set records. \<exists>s. map_of d ''category'' = Some (JStr s)"
    and r: "r \<in> set (rows (frame_of records))"
  shows "\<exists>d \<in> set records. getc r ''category'' = record_cell d ''category''"
proof (cases "''id'' \<in> set (columns (DataFrame records)) \<and> ''sku'' \<notin> set (columns (DataFrame records))")
  case True
  with r obtain r0 where r0: "r0 \<in> set (rows (DataFrame records))"
    and rr: "r = map (\<lambda>(k, v). (if k = ''id'' then ''sku'' else k, v)) r0"
    by (auto simp: frame_of_def rename_def Let_def)
  have "getc r ''category'' = getc r0 ''category''"
    unfolding rr by (rule getc_rename_other) simp_all
  with DataFrame_category [OF cat r0] show ?thesis by simp
next
  case False
  with r have "r \<in> set (rows (DataFrame records))" by (auto simp: frame_of_def Let_def)
  from DataFrame_category [OF cat this] show ?thesis .
qed

lemma frame_category:
  assumes "r \<in> set (rows (frame_of (snd (collect files))))"
  shows "\<exists>(p, l) \<in> set files. process_file p l \<noteq> None \<and> getc r ''category'' = PyStr (category_of p)"
proof -
  have cat: "\<forall>d \<in> set (snd (collect files)). \<exists>s. map_of d ''category'' = Some (JStr s)"
    using collect_category [of _ files] by fast
  from frame_of_category [OF cat assms] obtain d where d: "d \<in> set (snd (collect files))"
    and g: "getc r ''category'' = record_cell d ''category''" by blast
  from collect_category [OF d] obtain p l where "(p, l) \<in> set files" "process_file p l \<noteq> None"
    "map_of d ''category'' = Some (JStr (category_of p))" by blast
  with g show ?thesis by (auto simp: record_cell_def)
qed

lemma getc_output_row:
  "c \<in> set required_columns \<Longrightarrow> c \<in> set cols \<Longrightarrow> getc (output_row cols r) c = getc r c"
  by (simp add: output_row_def getc_tabulate)

lemma getc_output_row_missing:
  "c \<in> set required_columns \<Longrightarrow> c \<notin> set cols \<Longrightarrow> getc (output_row cols r) c = PyStr []"
  by (simp add: output_row_def getc_tabulate)

lemma filter_key_le_one: "distinct (map f xs) \<Longrightarrow> length (filter (\<lambda>x. f x = y) xs) \<le> Suc 0"
proof (induction xs)
  case Nil
  then show ?case by simp
next
  case (Cons a xs)
  show ?case
  proof (cases "f a = y")
    case True
    with Cons.prems have "y \<notin> f ` set xs" by auto
    then have "filter (\<lambda>x. f x = y) xs = []" by (auto simp: filter_empty_conv)
    with True show ?thesis by simp
  next
    case False
    with Cons show ?thesis by simp
  qed
qed

lemma py_key_NaN: "(py_key v = NaN) = (v = NaN)"
  by (cases v) auto

lemma py_key_None: "(py_key v = PyNone) = (v = PyNone)"
  by (cases v) auto

lemma basename_after_slash: "CHR ''/'' \<notin> set name \<Longrightarrow> basename (dir @ CHR ''/'' # name) = name"
  by (induction dir) auto

lemma basename_no_slash: "CHR ''/'' \<notin> set name \<Longrightarrow> basename name = name"
  by (cases name) auto

lemma splitext_root_json:
  assumes "\<exists>c \<in> set stem. c \<noteq> CHR ''.''"
  shows "splitext_root (stem @ ''.json'') = stem"
proof -
  have "dropWhile (\<lambda>c. c \<noteq> CHR ''.'') (rev (stem @ ''.json'')) = CHR ''.'' # rev stem"
    by simp
  then show ?thesis using assms by (simp add: splitext_root_def Let_def)
qed

lemma category_of_json:
  assumes "CHR ''/'' \<notin> set stem" "\<exists>c \<in> set stem. c \<noteq> CHR ''.''"
  shows "category_of (dir @ CHR ''/'' # stem @ ''.json'') = stem"
    and "category_of (stem @ ''.json'') = stem"
proof -
  have ns: "CHR ''/'' \<notin> set (stem @ ''.json'')" using assms(1) by simp
  show "category_of (dir @ CHR ''/'' # stem @ ''.json'') = stem"
    unfolding category_of_def by (simp only: basename_after_slash [OF ns] splitext_root_json [OF assms(2)])
  show "category_of (stem @ ''.json'') = stem"
    unfolding category_of_def by (simp only: basename_no_slash [OF ns] splitext_root_json [OF assms(2)])
qed

lemma process_file_category:
  "process_file p l = Some ds \<Longrightarrow> d \<in> set ds \<Longrightarrow> map_of d ''category'' = Some (JStr (category_of p))"
  by (auto simp: process_file_def dest: process_data_category split: load.splits)


lemma process_file_raises:
  "process_file p LoadFailed = None"
  "process_file p (Loaded JNull) = None"
  "process_file p (Loaded (JBool b)) = None"
  "process_file p (Loaded (JInt i)) = None"
  "s \<noteq> [] \<Longrightarrow> process_file p (Loaded (JStr s)) = None"
  "d \<noteq> [] \<Longrightarrow> process_file p (Loaded (JObj d)) = None"
  "\<exists>x \<in> set items. \<forall>d. x \<noteq> JObj d \<Longrightarrow> process_file p (Loaded (JArr items)) = None"
proof -
  show "\<exists>x \<in> set items. \<forall>d. x \<noteq> JObj d \<Longrightarrow> process_file p (Loaded (JArr items)) = None"
  proof (induction items)
    case Nil
    then show ?case by simp
  next
    case (Cons x xs)
    then show ?case
      by (cases x) (auto simp: process_file_def split: option.splits)
  qed
qed (simp_all add: process_file_def)


text \<open>
  Where a returned row comes from: a row of the frame, cut to the required columns,
  that no other row of the same sku exceeds in category.
\<close>

lemma merge_row_origin:
  assumes m: "merge_json_files files = (out, Inr t)" and r: "r \<in> set (rows t)"
  shows "\<exists>d \<in> set (rows (frame_of (snd (collect files)))).
         r = output_row (columns (frame_of (snd (collect files)))) d \<and>
         getc r ''sku'' = getc d ''sku'' \<and> getc r ''category'' = getc d ''category'' \<and>
         (\<forall>d' \<in> set (rows (frame_of (snd (collect files)))).
            sku_key d' = sku_key d \<longrightarrow> category_key d' \<le> category_key d)"
proof -
  let ?D = "frame_of (snd (collect files))"
  let ?K = "keep_last sku_key (sort_key category_key (rows ?D))"
  note mr = merge_json_files_Inr [OF m]
  have rows: "rows t = map (output_row (columns ?D)) ?K" by (subst mr(1)) simp
  have req: "''sku'' \<in> set required_columns" "''category'' \<in> set required_columns"
    by (simp_all add: required_columns_def)
  from r obtain d where dK: "d \<in> set ?K" and rd: "r = output_row (columns ?D) d"
    by (auto simp: rows)
  from dK have dD: "d \<in> set (rows ?D)"
    using set_keep_last_subset [of sku_key "sort_key category_key (rows ?D)"] by auto
  have gr: "category_key d' \<le> category_key d" if "d' \<in> set (rows ?D)" "sku_key d' = sku_key d" for d'
  proof (rule keep_last_greatest [OF _ dK _ that(2)])
    show "sorted (map category_key (sort_key category_key (rows ?D)))" by (rule sorted_sort_key)
    show "d' \<in> set (sort_key category_key (rows ?D))" using that(1) by simp
  qed
  have "getc r ''sku'' = getc d ''sku''"
    unfolding rd by (rule getc_output_row [OF req(1) mr(2)])
  moreover have "getc r ''category'' = getc d ''category''"
    unfolding rd by (rule getc_output_row [OF req(2) mr(3)])
  ultimately show ?thesis using dD rd gr by blast
qed

lemma merge_sku_keys:
  assumes m: "merge_json_files files = (out, Inr t)"
  shows "map sku_key (rows t) =
         map sku_key (keep_last sku_key (sort_key category_key (rows (frame_of (snd (collect files))))))"
proof -
  let ?D = "frame_of (snd (collect files))"
  note mr = merge_json_files_Inr [OF m]
  have rows: "rows t = map (output_row (columns ?D)) (keep_last sku_key (sort_key category_key (rows ?D)))"
    by (subst mr(1)) simp
  have "''sku'' \<in> set required_columns" by (simp add: required_columns_def)
  then have "sku_key (output_row (columns ?D) r) = sku_key r" for r
    by (simp add: sku_key_def getc_output_row [OF _ mr(2)])
  then show ?thesis by (simp add: rows comp_def)
qed

text \<open>
  The part of claim C3 that the code keeps: a required column that the frame lacks
  and that line 73 does not need (\<^verbatim>\<open>name\<close>, \<^verbatim>\<open>brand\<close>) is created holding
  empty strings, and a warning is printed for it.
\<close>

lemma missing_column_synthesised:
  assumes m: "merge_json_files files = (out, Inr t)"
    and c: "c \<in> set required_columns" "c \<notin> set (columns (frame_of (snd (collect files))))"
  shows "columns t = required_columns" and "\<forall>r \<in> set (rows t). getc r c = PyStr []"
    and "WarnMissingColumn c \<in> set out"
proof -
  note mr = merge_json_files_Inr [OF m]
  show "columns t = required_columns" by (subst mr(1)) simp
  show "\<forall>r \<in> set (rows t). getc r c = PyStr []"
    by (subst mr(1)) (simp add: getc_output_row_missing [OF c])
  show "WarnMissingColumn c \<in> set out"
    using c by (subst mr(4)) simp
qed

lemma merge_well_formed:
  assumes "merge_json_files files = (out, Inr t)"
  shows "well_formed t" and "columns t = required_columns"
proof -
  note m = merge_json_files_Inr [OF assms]
  have "map fst (output_row cols r) = required_columns" for cols r
    by (simp add: output_row_def comp_def)
  then show "well_formed t" by (subst m(1)) (simp add: well_formed_def)
  show "columns t = required_columns" by (subst m(1)) simp
qed

lemma merge_returns_if_dedup:
  assumes k: "dedup (frame_of (snd (collect files))) = Inr k"
  shows "\<exists>out t. merge_json_files files = (out, Inr t)"
proof -
  let ?D = "frame_of (snd (collect files))"
  let ?missing = "filter (\<lambda>c. c \<notin> set (columns ?D)) required_columns"
  let ?t' = "\<lparr>columns = columns k @ ?missing, rows = map (\<lambda>r. r @ map (\<lambda>c. (c, PyStr [])) ?missing) (rows k)\<rparr>"
  obtain lg recs where c: "collect files = (lg, recs)" by (cases "collect files")
  note d = dedup_Inr [OF k]
  have dist: "distinct required_columns" by (simp add: required_columns_def)
  have e: "ensure_columns required_columns k = (map WarnMissingColumn ?missing, ?t')"
    by (simp only: ensure_columns_eq [OF dist] d(1))
  have sub: "set required_columns \<subseteq> set (columns ?t')"
    by (auto simp: d(1))
  have "merge_json_files files = (lg @ map WarnMissingColumn ?missing, getitem required_columns ?t')"
    using c k e by (simp add: merge_json_files_def)
  then show ?thesis by (simp only: getitem_Inr [OF sub]) blast
qed

lemma category_in_frame:
  assumes "snd (collect files) \<noteq> []"
  shows "''category'' \<in> set (columns (frame_of (snd (collect files))))"
proof -
  from assms obtain d where d: "d \<in> set (snd (collect files))" by (cases "snd (collect files)") auto
  from collect_category [OF d] obtain s where "map_of d ''category'' = Some (JStr s)" by blast
  then have "(''category'', JStr s) \<in> set d" by (rule map_of_SomeD)
  then have "''category'' \<in> fst ` set d" by force
  with d have "''category'' \<in> set (columns (DataFrame (snd (collect files))))"
    by (auto simp: columns_DataFrame)
  then show ?thesis by (auto simp: frame_of_def Let_def rename_def)
qed

text \<open>
  When \<open>merge_json_files\<close> returns a table: some record was read and the frame has
  a \<^verbatim>\<open>sku\<close> column (from \<^verbatim>\<open>sku\<close> or \<^verbatim>\<open>id\<close>).
\<close>

lemma merge_json_files_returns:
  assumes "snd (collect files) \<noteq> []"
    and "''sku'' \<in> set (columns (frame_of (snd (collect files))))"
  shows "\<exists>out t. merge_json_files files = (out, Inr t)"
proof -
  let ?D = "frame_of (snd (collect files))"
  have cat: "''category'' \<in> set (columns ?D)" by (rule category_in_frame [OF assms(1)])
  have strs: "\<forall>v \<in> set (column ''category'' (rows ?D)). is_str v"
    using frame_category [of _ files] by (fastforce simp: column_def)
  then obtain s where s: "sort_values ''category'' ?D = Inr s"
    and sc: "columns s = columns ?D"
    using cat by (simp add: sort_values_def)
  from assms(2) sc obtain k where "drop_duplicates ''sku'' s = Inr k"
    by (simp add: drop_duplicates_def)
  with s have "dedup ?D = Inr k" by (simp add: dedup_def)
  then show ?thesis by (rule merge_returns_if_dedup)
qed

section \<open>Properties of \<^verbatim>\<open>merge_json_files\<close>\<close>

text \<open>
  Claim C1, as amended. The claim has the rows without a sku value form one group.
  pandas keeps two markers for a value that is not there, NaN where a record has no
  \<^verbatim>\<open>sku\<close> field and \<^verbatim>\<open>None\<close> where the field is JSON null, and in a column of
  objects the two are different keys: in \<open>sku_groups_counterexample\<close> one file
  holds a record with a sku, one with a null sku and one without the field, and
  all three rows are returned, two of them without a sku value. What holds:
  whenever \<open>merge_json_files\<close> returns a table, the table has exactly one row for
  each distinct value of the \<^verbatim>\<open>sku\<close> column of the frame of all records (the
  values as pandas holds and compares them: after the rename of \<^verbatim>\<open>id\<close>, with a
  column of integers and missing values held as float64 and a null in it as NaN):
  the sku keys of its rows are pairwise different and are the sku keys of the
  frame. The rows with NaN are one group and the rows with \<^verbatim>\<open>None\<close> are one
  group, so at most one returned row has either. Each returned row is a row of the
  frame cut to the required columns, with the same sku and category, and no row of
  the frame with the same sku has a greater category; every category is a string,
  compared by code point. The witness is the example of the specification:
  \<^verbatim>\<open>electronics.json\<close> and \<^verbatim>\<open>home.json\<close> both hold identifier 1, and the one
  row returned has the name and the category of \<^verbatim>\<open>home\<close>.
\<close>

theorem dedup_keeps_greatest_category:
  assumes "merge_json_files files = (out, Inr t)"
  shows "distinct (map sku_key (rows t)) \<and>
     length (filter (\<lambda>r. getc r ''sku'' = NaN) (rows t)) \<le> 1 \<and>
     length (filter (\<lambda>r. getc r ''sku'' = PyNone) (rows t)) \<le> 1 \<and>
     sku_key ` set (rows t) = sku_key ` set (rows (frame_of (snd (collect files)))) \<and>
     (\<forall>d \<in> set (rows (frame_of (snd (collect files)))). is_str (getc d ''category'')) \<and>
     (\<forall>r \<in> set (rows t). \<exists>d \<in> set (rows (frame_of (snd (collect files)))).
         r = output_row (columns (frame_of (snd (collect files)))) d \<and>
         getc r ''sku'' = getc d ''sku'' \<and> getc r ''category'' = getc d ''category'' \<and>
         (\<forall>d' \<in> set (rows (frame_of (snd (collect files)))).
            sku_key d' = sku_key d \<longrightarrow> category_key d' \<le> category_key d))"
proof -
  let ?D = "frame_of (snd (collect files))"
  let ?K = "keep_last sku_key (sort_key category_key (rows ?D))"
  have keys: "map sku_key (rows t) = map sku_key ?K"
    by (rule merge_sku_keys [OF assms])
  have 1: "distinct (map sku_key (rows t))"
    by (simp only: keys distinct_keep_last)
  have "(\<lambda>r. getc r ''sku'' = NaN) = (\<lambda>r. sku_key r = NaN)"
    by (simp add: sku_key_def py_key_NaN)
  then have 2: "length (filter (\<lambda>r. getc r ''sku'' = NaN) (rows t)) \<le> 1"
    using filter_key_le_one [OF 1, of NaN] by simp
  have "(\<lambda>r. getc r ''sku'' = PyNone) = (\<lambda>r. sku_key r = PyNone)"
    by (simp add: sku_key_def py_key_None)
  then have n2: "length (filter (\<lambda>r. getc r ''sku'' = PyNone) (rows t)) \<le> 1"
    using filter_key_le_one [OF 1, of PyNone] by simp
  have "sku_key ` set (rows t) = set (map sku_key (rows t))" by simp
  also have "\<dots> = sku_key ` set ?K" by (simp only: keys set_map)
  also have "\<dots> = sku_key ` set (rows ?D)" by (simp only: image_keep_last set_sort)
  finally have 3: "sku_key ` set (rows t) = sku_key ` set (rows ?D)" .
  have 4: "\<forall>d \<in> set (rows ?D). is_str (getc d ''category'')"
    using frame_category [of _ files] by fastforce
  from 1 2 n2 3 4 merge_row_origin [OF assms] show ?thesis by blast
qed

theorem sku_groups_counterexample:
  "merge_json_files
     [(''data/a.json'',
       Loaded (JArr [JObj [(''sku'', JStr ''A1''), (''name'', JStr ''Widget'')],
                     JObj [(''sku'', JNull), (''name'', JStr ''Gadget'')],
                     JObj [(''name'', JStr ''Gizmo'')]]))] =
     ([Processed ''data/a.json'' 3, WarnMissingColumn ''brand''],
      Inr \<lparr>columns = [''sku'', ''name'', ''brand'', ''category''],
            rows = [[(''sku'', PyStr ''A1''), (''name'', PyStr ''Widget''), (''brand'', PyStr []),
                     (''category'', PyStr ''a'')],
                    [(''sku'', PyNone), (''name'', PyStr ''Gadget''), (''brand'', PyStr []),
                     (''category'', PyStr ''a'')],
                    [(''sku'', NaN), (''name'', PyStr ''Gizmo''), (''brand'', PyStr []),
                     (''category'', PyStr ''a'')]]\<rparr>) \<and>
   length (filter (\<lambda>r. getc r ''sku'' = NaN \<or> getc r ''sku'' = PyNone)
     [[(''sku'', PyStr ''A1''), (''name'', PyStr ''Widget''), (''brand'', PyStr []),
       (''category'', PyStr ''a'')],
      [(''sku'', PyNone), (''name'', PyStr ''Gadget''), (''brand'', PyStr []),
       (''category'', PyStr ''a'')],
      [(''sku'', NaN), (''name'', PyStr ''Gizmo''), (''brand'', PyStr []),
       (''category'', PyStr ''a'')]]) = 2"
  by code_simp

theorem dedup_keeps_greatest_category_witness:
  "merge_json_files
     [(''data/electronics.json'', Loaded (JArr [JObj [(''id'', JInt 1), (''name'', JStr ''X'')]])),
      (''data/home.json'', Loaded (JArr [JObj [(''id'', JInt 1), (''name'', JStr ''Y'')]]))] =
     ([Processed ''data/electronics.json'' 1, Processed ''data/home.json'' 1, WarnMissingColumn ''brand''],
      Inr \<lparr>columns = [''sku'', ''name'', ''brand'', ''category''],
            rows = [[(''sku'', NpInt 1), (''name'', PyStr ''Y''), (''brand'', PyStr []),
                     (''category'', PyStr ''home'')]]\<rparr>) \<and>
   sku_key ` set [[(''sku'', NpInt 1), (''name'', PyStr ''Y''), (''brand'', PyStr []),
                   (''category'', PyStr ''home'')]] =
   sku_key ` set (rows (frame_of (snd (collect
     [(''data/electronics.json'', Loaded (JArr [JObj [(''id'', JInt 1), (''name'', JStr ''X'')]])),
      (''data/home.json'', Loaded (JArr [JObj [(''id'', JInt 1), (''name'', JStr ''Y'')]]))]))))"
proof -
  have e: "merge_json_files
     [(''data/electronics.json'', Loaded (JArr [JObj [(''id'', JInt 1), (''name'', JStr ''X'')]])),
      (''data/home.json'', Loaded (JArr [JObj [(''id'', JInt 1), (''name'', JStr ''Y'')]]))] =
     ([Processed ''data/electronics.json'' 1, Processed ''data/home.json'' 1, WarnMissingColumn ''brand''],
      Inr \<lparr>columns = [''sku'', ''name'', ''brand'', ''category''],
            rows = [[(''sku'', NpInt 1), (''name'', PyStr ''Y''), (''brand'', PyStr []),
                     (''category'', PyStr ''home'')]]\<rparr>)"
    by code_simp
  from dedup_keeps_greatest_category [OF e] have
    "sku_key ` set (rows \<lparr>columns = [''sku'', ''name'', ''brand'', ''category''],
            rows = [[(''sku'', NpInt 1), (''name'', PyStr ''Y''), (''brand'', PyStr []),
                     (''category'', PyStr ''home'')]]\<rparr>) =
     sku_key ` set (rows (frame_of (snd (collect
     [(''data/electronics.json'', Loaded (JArr [JObj [(''id'', JInt 1), (''name'', JStr ''X'')]])),
      (''data/home.json'', Loaded (JArr [JObj [(''id'', JInt 1), (''name'', JStr ''Y'')]]))]))))"
    by (elim conjE)
  then show ?thesis using e by (simp only: df.simps simp_thms)
qed

text \<open>
  Claim C10. The assignment on line 57 gives every record of a file the category of
  that file, \<open>category_of file_path\<close> (the base name cut at its extension), whatever
  the record held under \<^verbatim>\<open>category\<close> before; and every row of a returned table
  carries the category of one of the files that were read, so a category written in
  a source record appears nowhere in the table. For a path \<^verbatim>\<open>dir/stem.json\<close> the
  category is \<^verbatim>\<open>stem\<close> (\<open>category_of_json\<close>).
\<close>

theorem category_overwritten:
  "(\<exists>d'. set_category category (JObj d) = Some d' \<and> map_of d' ''category'' = Some (JStr category)) \<and>
   (process_file file_path l = Some data \<longrightarrow>
      (\<forall>item \<in> set data. map_of item ''category'' = Some (JStr (category_of file_path)))) \<and>
   (merge_json_files files = (out, Inr t) \<longrightarrow>
      (\<forall>r \<in> set (rows t). \<exists>(p, l) \<in> set files.
          process_file p l \<noteq> None \<and> getc r ''category'' = PyStr (category_of p)))"
proof (intro conjI impI)
  show "\<exists>d'. set_category category (JObj d) = Some d' \<and> map_of d' ''category'' = Some (JStr category)"
    by (simp add: map_of_dict_set)
  show "\<forall>item \<in> set data. map_of item ''category'' = Some (JStr (category_of file_path))"
    if "process_file file_path l = Some data"
    using process_file_category [OF that] by blast
  show "\<forall>r \<in> set (rows t). \<exists>(p, l) \<in> set files.
          process_file p l \<noteq> None \<and> getc r ''category'' = PyStr (category_of p)"
    if m: "merge_json_files files = (out, Inr t)"
  proof
    fix r assume r: "r \<in> set (rows t)"
    from merge_row_origin [OF m r]
    obtain d where d: "d \<in> set (rows (frame_of (snd (collect files))))"
      and g: "getc r ''category'' = getc d ''category''" by blast
    from frame_category [OF d] g show "\<exists>(p, l) \<in> set files.
          process_file p l \<noteq> None \<and> getc r ''category'' = PyStr (category_of p)" by auto
  qed
qed

theorem category_overwritten_witness:
  "process_file ''data/home.json''
     (Loaded (JArr [JObj [(''sku'', JInt 7), (''category'', JStr ''toys''), (''name'', JStr ''Lamp'')]])) =
     Some [[(''sku'', JInt 7), (''category'', JStr ''home''), (''name'', JStr ''Lamp'')]] \<and>
   merge_json_files
     [(''data/home.json'',
       Loaded (JArr [JObj [(''sku'', JInt 7), (''category'', JStr ''toys''), (''name'', JStr ''Lamp'')]]))] =
     ([Processed ''data/home.json'' 1, WarnMissingColumn ''brand''],
      Inr \<lparr>columns = [''sku'', ''name'', ''brand'', ''category''],
            rows = [[(''sku'', NpInt 7), (''name'', PyStr ''Lamp''), (''brand'', PyStr []),
                     (''category'', PyStr ''home'')]]\<rparr>) \<and>
   map_of [(''sku'', JInt 7), (''category'', JStr ''home''), (''name'', JStr ''Lamp'')] ''category'' =
     Some (JStr (category_of ''data/home.json'')) \<and>
   (\<exists>(p, l) \<in> set [(''data/home.json'',
       Loaded (JArr [JObj [(''sku'', JInt 7), (''category'', JStr ''toys''), (''name'', JStr ''Lamp'')]]))].
      process_file p l \<noteq> None \<and>
      getc [(''sku'', NpInt 7), (''name'', PyStr ''Lamp''), (''brand'', PyStr []),
            (''category'', PyStr ''home'')] ''category'' = PyStr (category_of p))"
proof -
  have p: "process_file ''data/home.json''
     (Loaded (JArr [JObj [(''sku'', JInt 7), (''category'', JStr ''toys''), (''name'', JStr ''Lamp'')]])) =
     Some [[(''sku'', JInt 7), (''category'', JStr ''home''), (''name'', JStr ''Lamp'')]]"
    by code_simp
  have e: "merge_json_files
     [(''data/home.json'',
       Loaded (JArr [JObj [(''sku'', JInt 7), (''category'', JStr ''toys''), (''name'', JStr ''Lamp'')]]))] =
     ([Processed ''data/home.json'' 1, WarnMissingColumn ''brand''],
      Inr \<lparr>columns = [''sku'', ''name'', ''brand'', ''category''],
            rows = [[(''sku'', NpInt 7), (''name'', PyStr ''Lamp''), (''brand'', PyStr []),
                     (''category'', PyStr ''home'')]]\<rparr>)"
    by code_simp
  note t = category_overwritten [where file_path = "''data/home.json''"
      and l = "Loaded (JArr [JObj [(''sku'', JInt 7), (''category'', JStr ''toys''), (''name'', JStr ''Lamp'')]])"
      and data = "[[(''sku'', JInt 7), (''category'', JStr ''home''), (''name'', JStr ''Lamp'')]]"
      and files = "[(''data/home.json'',
       Loaded (JArr [JObj [(''sku'', JInt 7), (''category'', JStr ''toys''), (''name'', JStr ''Lamp'')]]))]"
      and out = "[Processed ''data/home.json'' 1, WarnMissingColumn ''brand'']"
      and t = "\<lparr>columns = [''sku'', ''name'', ''brand'', ''category''],
            rows = [[(''sku'', NpInt 7), (''name'', PyStr ''Lamp''), (''brand'', PyStr []),
                     (''category'', PyStr ''home'')]]\<rparr>"]
  from t p have a: "\<forall>item \<in> set [[(''sku'', JInt 7), (''category'', JStr ''home''), (''name'', JStr ''Lamp'')]].
      map_of item ''category'' = Some (JStr (category_of ''data/home.json''))"
    by blast
  from t e have b: "\<forall>r \<in> set (rows \<lparr>columns = [''sku'', ''name'', ''brand'', ''category''],
            rows = [[(''sku'', NpInt 7), (''name'', PyStr ''Lamp''), (''brand'', PyStr []),
                     (''category'', PyStr ''home'')]]\<rparr>).
      \<exists>(p, l) \<in> set [(''data/home.json'',
       Loaded (JArr [JObj [(''sku'', JInt 7), (''category'', JStr ''toys''), (''name'', JStr ''Lamp'')]]))].
      process_file p l \<noteq> None \<and> getc r ''category'' = PyStr (category_of p)"
    by blast
  from a have a': "map_of [(''sku'', JInt 7), (''category'', JStr ''home''), (''name'', JStr ''Lamp'')] ''category'' =
     Some (JStr (category_of ''data/home.json''))"
    by (simp only: list.set ball_simps simp_thms)
  from b have b': "\<exists>(p, l) \<in> set [(''data/home.json'',
       Loaded (JArr [JObj [(''sku'', JInt 7), (''category'', JStr ''toys''), (''name'', JStr ''Lamp'')]]))].
      process_file p l \<noteq> None \<and>
      getc [(''sku'', NpInt 7), (''name'', PyStr ''Lamp''), (''brand'', PyStr []),
            (''category'', PyStr ''home'')] ''category'' = PyStr (category_of p)"
    by (simp only: df.simps list.set ball_simps simp_thms)
  from p e a' b' show ?thesis by (intro conjI)
qed



section \<open>Text coercion and the left join\<close>

lemma map_fst_astype_row: "map fst (astype_row col r) = map fst r"
  by (induction r) (auto simp: astype_row_def)

lemma map_of_astype_row:
  "map_of (astype_row col r) c =
     map_option (\<lambda>v. if c = col then PyStr (py_str v) else v) (map_of r c)"
  by (induction r) (simp_all add: astype_row_def split_def)

lemma getc_astype_row:
  "getc (astype_row col r) c =
     (if c = col \<and> col \<in> fst ` set r then PyStr (py_str (getc r col)) else getc r c)"
proof (cases "map_of r c")
  case None
  then have "c \<notin> fst ` set r" by (simp add: map_of_eq_None_iff)
  with None show ?thesis by (auto simp: getc_def map_of_astype_row)
next
  case (Some v)
  then have "c \<in> fst ` set r" by (metis map_of_eq_None_iff option.distinct(1))
  with Some show ?thesis by (auto simp: getc_def map_of_astype_row)
qed

lemma astype_row_id:
  "\<forall>v. (col, v) \<in> set r \<longrightarrow> is_str v \<Longrightarrow> astype_row col r = r"
proof (induction r)
  case Nil
  then show ?case by (simp add: astype_row_def)
next
  case (Cons a r)
  obtain c v where a: "a = (c, v)" by (cases a)
  from Cons have ih: "astype_row col r = r" by simp
  have "c = col \<Longrightarrow> PyStr (py_str v) = v"
    using Cons.prems a by (cases v) auto
  with ih a show ?case by (auto simp: astype_row_def)
qed

lemma map_snd_relabel: "map snd (relabel to_rename suffix r) = map snd r"
  by (induction r) (auto simp: relabel_def)

lemma length_concat_singletons:
  "(\<forall>x \<in> set xs. length (f x) = 1) \<Longrightarrow> length (concat (map f xs)) = length xs"
  by (induction xs) auto

lemma length_left_join_rows:
  assumes "\<forall>l \<in> set lefts.
          length (filter (\<lambda>r. py_key (getc r right_on) = py_key (getc l left_on)) rights) \<le> 1"
  shows "length (left_join_rows left_on right_on lrow rrow nulls lefts rights) = length lefts"
  unfolding left_join_rows_def matches_def
proof (rule length_concat_singletons, rule ballI)
  fix l assume "l \<in> set lefts"
  with assms have "length (filter (\<lambda>r. py_key (getc r right_on) = py_key (getc l left_on)) rights) \<le> 1"
    by blast
  then show "length (case filter (\<lambda>r. py_key (getc r right_on) = py_key (getc l left_on)) rights of
        [] \<Rightarrow> [lrow l @ nulls] | m # ms \<Rightarrow> map (\<lambda>r. lrow l @ rrow r) (m # ms)) = 1"
    by (auto split: list.splits)
qed

lemma left_join_rows_match:
  assumes "l \<in> set lefts" "r \<in> set rights" "py_key (getc r right_on) = py_key (getc l left_on)"
  shows "lrow l @ rrow r \<in> set (left_join_rows left_on right_on lrow rrow nulls lefts rights)"
proof -
  let ?ms = "filter (\<lambda>r. py_key (getc r right_on) = py_key (getc l left_on)) rights"
  from assms(2,3) have rin: "r \<in> set ?ms" by simp
  then obtain m ms where ms: "?ms = m # ms" by (cases ?ms) auto
  with rin have "lrow l @ rrow r \<in> set (map (\<lambda>r. lrow l @ rrow r) (m # ms))" by force
  with ms assms(1) show ?thesis
    unfolding left_join_rows_def matches_def by (auto intro!: bexI [of _ l])
qed

lemma left_join_rows_nomatch:
  assumes "l \<in> set lefts" "\<forall>r \<in> set rights. py_key (getc r right_on) \<noteq> py_key (getc l left_on)"
  shows "lrow l @ nulls \<in> set (left_join_rows left_on right_on lrow rrow nulls lefts rights)"
proof -
  from assms(2) have "filter (\<lambda>r. py_key (getc r right_on) = py_key (getc l left_on)) rights = []"
    by (auto simp: filter_empty_conv)
  with assms(1) show ?thesis
    unfolding left_join_rows_def matches_def by (auto intro!: bexI [of _ l])
qed

lemma pd_merge_Inr:
  assumes "pd_merge left right left_on right_on = Inr j"
  shows "\<exists>lrow rrow nulls.
      rows j = left_join_rows left_on right_on lrow rrow nulls (rows left) (rows right) \<and>
      (\<forall>l. map snd (lrow l) = map snd l) \<and>
      (\<forall>r. map snd (rrow r) =
            map snd (widen_row (\<exists>l \<in> set (rows left). matches left_on right_on (rows right) l = [])
                       (if left_on = right_on then filter (\<lambda>(c, v). c \<noteq> right_on) r else r))) \<and>
      map snd nulls = replicate (length (columns j) - length (columns left)) NaN"
    and "left_on \<in> set (columns left)" and "right_on \<in> set (columns right)"
proof -
  from assms show lo: "left_on \<in> set (columns left)" and ro: "right_on \<in> set (columns right)"
    by (auto simp: pd_merge_def split: if_splits)
  let ?right' = "if left_on = right_on then drop_label right_on right else right"
  let ?tr = "filter (\<lambda>c. c \<in> set (columns ?right')) (columns left)"
  let ?rl = "map (\<lambda>c. if c \<in> set ?tr then c @ ''_y'' else c) (columns ?right')"
  let ?ll = "map (\<lambda>c. if c \<in> set ?tr then c @ ''_x'' else c) (columns left)"
  let ?fill = "\<exists>l \<in> set (rows left). matches left_on right_on (rows right) l = []"
  let ?rrow = "\<lambda>r. relabel ?tr ''_y''
      (widen_row ?fill (if left_on = right_on then filter (\<lambda>(c, v). c \<noteq> right_on) r else r))"
  from assms lo ro have j: "j = \<lparr>columns = ?ll @ ?rl,
        rows = left_join_rows left_on right_on (relabel ?tr ''_x'') ?rrow
                 (map (\<lambda>c. (c, NaN)) ?rl) (rows left) (rows right)\<rparr>"
    by (simp add: pd_merge_def Let_def split: if_splits)
  have n: "map snd (map (\<lambda>c. (c, NaN)) ?rl) = replicate (length (columns j) - length (columns left)) NaN"
    by (subst j) (simp add: comp_def map_replicate_const)
  have r: "rows j = left_join_rows left_on right_on (relabel ?tr ''_x'') ?rrow
                 (map (\<lambda>c. (c, NaN)) ?rl) (rows left) (rows right)"
    by (subst j) simp
  show "\<exists>lrow rrow nulls.
      rows j = left_join_rows left_on right_on lrow rrow nulls (rows left) (rows right) \<and>
      (\<forall>l. map snd (lrow l) = map snd l) \<and>
      (\<forall>r. map snd (rrow r) =
            map snd (widen_row ?fill
                       (if left_on = right_on then filter (\<lambda>(c, v). c \<noteq> right_on) r else r))) \<and>
      map snd nulls = replicate (length (columns j) - length (columns left)) NaN"
    apply (rule exI [of _ "relabel ?tr ''_x''"])
    apply (rule exI [of _ ?rrow])
    apply (rule exI [of _ "map (\<lambda>c. (c, NaN)) ?rl"])
    apply (intro conjI allI)
       apply (rule r)
      apply (rule map_snd_relabel)
     apply (rule map_snd_relabel)
    apply (rule n)
    done
qed

lemma join_csv_files_Inr:
  assumes "join_csv_files merged_df (Inr input_df) = (out, merged', res)"
  shows "out = fst (join_column_of (columns input_df))"
    and "merged' = (if ''sku'' \<in> set (columns merged_df) then astype_str ''sku'' merged_df else merged_df)"
    and "res = pd_merge
           (if snd (join_column_of (columns input_df)) \<in> set (columns input_df)
            then astype_str (snd (join_column_of (columns input_df))) input_df else input_df)
           merged' (snd (join_column_of (columns input_df))) ''sku''"
proof -
  obtain o1 k where jc: "join_column_of (columns input_df) = (o1, k)"
    by (cases "join_column_of (columns input_df)")
  from assms show "out = fst (join_column_of (columns input_df))"
    and "merged' = (if ''sku'' \<in> set (columns merged_df) then astype_str ''sku'' merged_df else merged_df)"
    and "res = pd_merge
           (if snd (join_column_of (columns input_df)) \<in> set (columns input_df)
            then astype_str (snd (join_column_of (columns input_df))) input_df else input_df)
           merged' (snd (join_column_of (columns input_df))) ''sku''"
    unfolding join_csv_files_def by (auto simp add: jc Let_def)
qed

lemma columns_astype_str [simp]: "columns (astype_str col t) = columns t"
  by (simp add: astype_str_def)

lemma rows_astype_str [simp]: "rows (astype_str col t) = map (astype_row col) (rows t)"
  by (simp add: astype_str_def)

lemma distinct_map_coarser:
  "distinct (map f xs) \<Longrightarrow> (\<forall>x \<in> set xs. \<forall>y \<in> set xs. g x = g y \<longrightarrow> f x = f y) \<Longrightarrow> distinct (map g xs)"
proof (induction xs)
  case Nil
  show ?case by simp
next
  case (Cons a xs)
  from Cons.prems(1) have fa: "f a \<notin> f ` set xs" and dxs: "distinct (map f xs)" by simp_all
  from Cons.prems(2) have sub: "\<forall>x \<in> set xs. \<forall>y \<in> set xs. g x = g y \<longrightarrow> f x = f y"
    by (meson list.set_intros(2))
  have ih: "distinct (map g xs)" by (rule Cons.IH [OF dxs sub])
  have "g a \<notin> g ` set xs"
  proof
    assume "g a \<in> g ` set xs"
    then obtain y where y: "y \<in> set xs" "g a = g y" by blast
    from Cons.prems(2) y have "f a = f y" by (meson list.set_intros)
    with y(1) have "f a \<in> f ` set xs" by blast
    with fa show False by blast
  qed
  with ih show ?case by simp
qed

lemma getc_absent: "c \<notin> fst ` set r \<Longrightarrow> getc r c = NaN"
proof -
  assume "c \<notin> fst ` set r"
  then have "map_of r c = None" by (simp add: map_of_eq_None_iff)
  then show ?thesis by (simp add: getc_def)
qed

lemma text_key_coarser:
  assumes "py_key (getc (astype_row col x) col) = py_key (getc (astype_row col y) col)"
  shows "py_str (getc x col) = py_str (getc y col)"
proof (cases "col \<in> fst ` set x"; cases "col \<in> fst ` set y")
  assume "col \<in> fst ` set x" "col \<in> fst ` set y"
  with assms show ?thesis by (simp add: getc_astype_row)
next
  assume "col \<in> fst ` set x" "col \<notin> fst ` set y"
  with assms show ?thesis by (simp add: getc_astype_row getc_absent)
next
  assume "col \<notin> fst ` set x" "col \<in> fst ` set y"
  with assms show ?thesis by (simp add: getc_astype_row getc_absent)
next
  assume "col \<notin> fst ` set x" "col \<notin> fst ` set y"
  then show ?thesis by (simp add: getc_absent)
qed

lemma e2e_merge:
  "merge_json_files e2e_files = ([Processed ''data/a.json'' 1, Processed ''data/b.json'' 1], Inr e2e_catalog)"
  by code_simp

lemma e2e_join:
  "join_csv_files e2e_catalog (Inr e2e_csv) =
     ([],
      \<lparr>columns = [''sku'', ''name'', ''brand'', ''category''],
         rows = [[(''sku'', PyStr ''1''), (''name'', PyStr ''Widget''), (''brand'', PyStr ''Acme''), (''category'', PyStr ''a'')],
                 [(''sku'', PyStr ''2''), (''name'', PyStr ''Gadget''), (''brand'', PyStr ''Zenith''), (''category'', PyStr ''b'')]]\<rparr>,
      Inr \<lparr>columns = [''product_sku'', ''sku'', ''name'', ''brand'', ''category''],
            rows = [[(''product_sku'', PyStr ''1''), (''sku'', PyStr ''1''), (''name'', PyStr ''Widget''),
                     (''brand'', PyStr ''Acme''), (''category'', PyStr ''a'')],
                    [(''product_sku'', PyStr ''2''), (''sku'', PyStr ''2''), (''name'', PyStr ''Gadget''),
                     (''brand'', PyStr ''Zenith''), (''category'', PyStr ''b'')],
                    [(''product_sku'', PyStr ''3''), (''sku'', NaN), (''name'', NaN), (''brand'', NaN),
                     (''category'', NaN)]]\<rparr>)"
  by code_simp

section \<open>Properties of \<^verbatim>\<open>join_csv_files\<close>\<close>

text \<open>
  Claim C7. Lines 113 and 116 turn the key column of the CSV and the catalog's
  \<^verbatim>\<open>sku\<close> column into text before the join, so the join compares texts: whenever
  a table is returned, a CSV row and a catalog row whose key and sku have the same
  text are joined, whatever type the two values had. The returned table then holds
  the cells of the CSV row followed by the cells of the catalog row, both keys as
  text; the catalog's key is dropped when the CSV key is itself labelled
  \<^verbatim>\<open>sku\<close>, and the catalog's integer columns are held as float64 when some CSV
  row found no catalog row. A CSV row whose key text no catalog row has is followed
  by missing values. The witness is the example of the specification: the catalog
  sku \<^verbatim>\<open>"100"\<close>, a string, joins the CSV key 100, an integer.
\<close>

theorem join_compares_text:
  assumes j: "join_csv_files merged_df (Inr input_df) = (out, merged', Inr joined)"
    and wf: "well_formed input_df" "well_formed merged_df"
    and l: "l \<in> set (rows input_df)"
  shows "(\<forall>r \<in> set (rows merged_df).
           py_str (getc l (snd (join_column_of (columns input_df)))) = py_str (getc r ''sku'') \<longrightarrow>
           map snd (astype_row (snd (join_column_of (columns input_df))) l) @
           map snd (widen_row
                      (\<exists>l' \<in> set (rows input_df). \<forall>r' \<in> set (rows merged_df).
                          py_str (getc l' (snd (join_column_of (columns input_df)))) \<noteq>
                          py_str (getc r' ''sku''))
                      (if snd (join_column_of (columns input_df)) = ''sku''
                       then filter (\<lambda>(c, v). c \<noteq> ''sku'') (astype_row ''sku'' r)
                       else astype_row ''sku'' r)) \<in> map snd ` set (rows joined)) \<and>
         ((\<forall>r \<in> set (rows merged_df).
             py_str (getc l (snd (join_column_of (columns input_df)))) \<noteq> py_str (getc r ''sku'')) \<longrightarrow>
           map snd (astype_row (snd (join_column_of (columns input_df))) l) @
           replicate (length (columns joined) - length (columns input_df)) NaN \<in> map snd ` set (rows joined))"
proof -
  let ?k = "snd (join_column_of (columns input_df))"
  let ?input' = "if ?k \<in> set (columns input_df) then astype_str ?k input_df else input_df"
  let ?fill = "\<exists>l' \<in> set (rows input_df). \<forall>r' \<in> set (rows merged_df).
      py_str (getc l' ?k) \<noteq> py_str (getc r' ''sku'')"
  note u = join_csv_files_Inr [OF j]
  from u(3) have pm: "pd_merge ?input' merged' ?k ''sku'' = Inr joined" by simp
  from pd_merge_Inr(3) [OF pm] u(2) have sku: "''sku'' \<in> set (columns merged_df)"
    by (auto split: if_splits)
  from pd_merge_Inr(2) [OF pm] have k: "?k \<in> set (columns input_df)"
    by (auto split: if_splits)
  from sku u(2) have rows': "rows merged' = map (astype_row ''sku'') (rows merged_df)" by simp
  from k have rowsi: "rows ?input' = map (astype_row ?k) (rows input_df)" by simp
  from k have colsi: "columns ?input' = columns input_df" by simp
  from l rowsi have l': "astype_row ?k l \<in> set (rows ?input')" by simp
  have keyl: "getc (astype_row ?k x) ?k = PyStr (py_str (getc x ?k))"
    if "x \<in> set (rows input_df)" for x
  proof -
    from wf(1) that k have "?k \<in> fst ` set x" by (metis well_formed_def set_map)
    then show ?thesis by (simp add: getc_astype_row)
  qed
  have keyr: "getc (astype_row ''sku'' r) ''sku'' = PyStr (py_str (getc r ''sku''))"
    if "r \<in> set (rows merged_df)" for r
  proof -
    from wf(2) that sku have "''sku'' \<in> fst ` set r" by (metis well_formed_def set_map)
    then show ?thesis by (simp add: getc_astype_row)
  qed
  have nomatch: "(matches ?k ''sku'' (rows merged') (astype_row ?k x) = []) =
      (\<forall>r' \<in> set (rows merged_df). py_str (getc x ?k) \<noteq> py_str (getc r' ''sku''))"
    if "x \<in> set (rows input_df)" for x
    by (auto simp: matches_def filter_empty_conv rows' keyl [OF that] keyr)
  have fill: "(\<exists>l0 \<in> set (rows ?input'). matches ?k ''sku'' (rows merged') l0 = []) = ?fill"
    by (auto simp: rowsi nomatch)
  from pd_merge_Inr(1) [OF pm] obtain lrow rrow nulls where
    rj: "rows joined = left_join_rows ?k ''sku'' lrow rrow nulls (rows ?input') (rows merged')"
    and lr: "\<And>l. map snd (lrow l) = map snd l"
    and rr0: "\<And>r. map snd (rrow r) =
        map snd (widen_row (\<exists>l0 \<in> set (rows ?input'). matches ?k ''sku'' (rows merged') l0 = [])
                   (if ?k = ''sku'' then filter (\<lambda>(c, v). c \<noteq> ''sku'') r else r))"
    and nl: "map snd nulls = replicate (length (columns joined) - length (columns ?input')) NaN"
    by blast
  have rr: "map snd (rrow r) =
        map snd (widen_row ?fill (if ?k = ''sku'' then filter (\<lambda>(c, v). c \<noteq> ''sku'') r else r))" for r
    by (simp only: rr0 fill)
  show ?thesis
  proof (intro conjI ballI impI)
    fix r assume r: "r \<in> set (rows merged_df)" and eq: "py_str (getc l ?k) = py_str (getc r ''sku'')"
    from r rows' have r': "astype_row ''sku'' r \<in> set (rows merged')" by simp
    have "py_key (getc (astype_row ''sku'' r) ''sku'') = py_key (getc (astype_row ?k l) ?k)"
      by (simp add: keyl [OF l] keyr [OF r] eq)
    from left_join_rows_match [OF l' r' this, of lrow rrow nulls]
    have "lrow (astype_row ?k l) @ rrow (astype_row ''sku'' r) \<in> set (rows joined)"
      by (simp only: rj)
    then have "map snd (lrow (astype_row ?k l) @ rrow (astype_row ''sku'' r)) \<in> map snd ` set (rows joined)"
      by (rule imageI)
    then show "map snd (astype_row ?k l) @
           map snd (widen_row ?fill
                      (if ?k = ''sku'' then filter (\<lambda>(c, v). c \<noteq> ''sku'') (astype_row ''sku'' r)
                       else astype_row ''sku'' r)) \<in> map snd ` set (rows joined)"
      by (simp only: map_append lr rr)
  next
    assume ne: "\<forall>r \<in> set (rows merged_df). py_str (getc l ?k) \<noteq> py_str (getc r ''sku'')"
    have "\<forall>r' \<in> set (rows merged'). py_key (getc r' ''sku'') \<noteq> py_key (getc (astype_row ?k l) ?k)"
      using ne by (auto simp: rows' keyl [OF l] keyr)
    from left_join_rows_nomatch [OF l' this, of lrow nulls rrow]
    have "lrow (astype_row ?k l) @ nulls \<in> set (rows joined)" by (simp only: rj)
    then have "map snd (lrow (astype_row ?k l) @ nulls) \<in> map snd ` set (rows joined)"
      by (rule imageI)
    then show "map snd (astype_row ?k l) @
           replicate (length (columns joined) - length (columns input_df)) NaN \<in> map snd ` set (rows joined)"
      by (simp only: map_append lr nl colsi)
  qed
qed

theorem join_compares_text_witness:
  "join_csv_files text_catalog (Inr int_key_csv) =
     ([], text_catalog,
      Inr \<lparr>columns = [''product_sku'', ''qty'', ''sku'', ''name'', ''brand'', ''category''],
            rows = [[(''product_sku'', PyStr ''100''), (''qty'', NpInt 2), (''sku'', PyStr ''100''),
                     (''name'', PyStr ''Drill''), (''brand'', PyStr ''Acme''), (''category'', PyStr ''tools'')]]\<rparr>) \<and>
   well_formed int_key_csv \<and> well_formed text_catalog \<and>
   getc [(''product_sku'', NpInt 100), (''qty'', NpInt 2)] ''product_sku'' = NpInt 100 \<and>
   getc [(''sku'', PyStr ''100''), (''name'', PyStr ''Drill''), (''brand'', PyStr ''Acme''),
         (''category'', PyStr ''tools'')] ''sku'' = PyStr ''100'' \<and>
   [PyStr ''100'', NpInt 2, PyStr ''100'', PyStr ''Drill'', PyStr ''Acme'', PyStr ''tools'']
     \<in> map snd ` set (rows \<lparr>columns = [''product_sku'', ''qty'', ''sku'', ''name'', ''brand'', ''category''],
            rows = [[(''product_sku'', PyStr ''100''), (''qty'', NpInt 2), (''sku'', PyStr ''100''),
                     (''name'', PyStr ''Drill''), (''brand'', PyStr ''Acme''), (''category'', PyStr ''tools'')]]\<rparr>)"
proof -
  let ?l = "[(''product_sku'', NpInt 100), (''qty'', NpInt 2)]"
  let ?r = "[(''sku'', PyStr ''100''), (''name'', PyStr ''Drill''), (''brand'', PyStr ''Acme''),
         (''category'', PyStr ''tools'')]"
  have e: "join_csv_files text_catalog (Inr int_key_csv) =
     ([], text_catalog,
      Inr \<lparr>columns = [''product_sku'', ''qty'', ''sku'', ''name'', ''brand'', ''category''],
            rows = [[(''product_sku'', PyStr ''100''), (''qty'', NpInt 2), (''sku'', PyStr ''100''),
                     (''name'', PyStr ''Drill''), (''brand'', PyStr ''Acme''), (''category'', PyStr ''tools'')]]\<rparr>)"
    by code_simp
  have w1: "well_formed int_key_csv" by code_simp
  have w2: "well_formed text_catalog" by code_simp
  have l: "?l \<in> set (rows int_key_csv)" by code_simp
  have r: "?r \<in> set (rows text_catalog)" by code_simp
  have t: "py_str (getc ?l (snd (join_column_of (columns int_key_csv)))) = py_str (getc ?r ''sku'')"
    by code_simp
  have g1: "getc ?l ''product_sku'' = NpInt 100" by code_simp
  have g2: "getc ?r ''sku'' = PyStr ''100''" by code_simp
  have c: "map snd (astype_row (snd (join_column_of (columns int_key_csv))) ?l) @
           map snd (widen_row
                      (\<exists>l' \<in> set (rows int_key_csv). \<forall>r' \<in> set (rows text_catalog).
                          py_str (getc l' (snd (join_column_of (columns int_key_csv)))) \<noteq>
                          py_str (getc r' ''sku''))
                      (if snd (join_column_of (columns int_key_csv)) = ''sku''
                       then filter (\<lambda>(c, v). c \<noteq> ''sku'') (astype_row ''sku'' ?r)
                       else astype_row ''sku'' ?r)) =
      [PyStr ''100'', NpInt 2, PyStr ''100'', PyStr ''Drill'', PyStr ''Acme'', PyStr ''tools'']"
    by code_simp
  note m = join_compares_text [OF e w1 w2 l, THEN conjunct1, THEN bspec, OF r, THEN mp, OF t]
  have "[PyStr ''100'', NpInt 2, PyStr ''100'', PyStr ''Drill'', PyStr ''Acme'', PyStr ''tools'']
     \<in> map snd ` set (rows \<lparr>columns = [''product_sku'', ''qty'', ''sku'', ''name'', ''brand'', ''category''],
            rows = [[(''product_sku'', PyStr ''100''), (''qty'', NpInt 2), (''sku'', PyStr ''100''),
                     (''name'', PyStr ''Drill''), (''brand'', PyStr ''Acme''), (''category'', PyStr ''tools'')]]\<rparr>)"
    using m by (simp only: c)
  with e w1 w2 g1 g2 show ?thesis by (intro conjI)
qed

text \<open>
  The widening at work: a catalog whose \<^verbatim>\<open>name\<close> column holds the integers 5
  and 6, and a CSV with the keys 1 and 9, of which 9 has no catalog row. The joined
  row of key 1 holds the name as the float 5.0.
\<close>

lemma join_widens_example:
  "merge_json_files
     [(''data/a.json'', Loaded (JArr [JObj [(''sku'', JInt 1), (''name'', JInt 5)],
                                       JObj [(''sku'', JInt 2), (''name'', JInt 6)]]))] =
     ([Processed ''data/a.json'' 2, WarnMissingColumn ''brand''],
      Inr \<lparr>columns = [''sku'', ''name'', ''brand'', ''category''],
            rows = [[(''sku'', NpInt 1), (''name'', NpInt 5), (''brand'', PyStr []), (''category'', PyStr ''a'')],
                    [(''sku'', NpInt 2), (''name'', NpInt 6), (''brand'', PyStr []), (''category'', PyStr ''a'')]]\<rparr>)"
  "snd (snd (join_csv_files
     \<lparr>columns = [''sku'', ''name'', ''brand'', ''category''],
        rows = [[(''sku'', NpInt 1), (''name'', NpInt 5), (''brand'', PyStr []), (''category'', PyStr ''a'')],
                [(''sku'', NpInt 2), (''name'', NpInt 6), (''brand'', PyStr []), (''category'', PyStr ''a'')]]\<rparr>
     (Inr \<lparr>columns = [''product_sku''],
             rows = [[(''product_sku'', NpInt 1)], [(''product_sku'', NpInt 9)]]\<rparr>))) =
     Inr \<lparr>columns = [''product_sku'', ''sku'', ''name'', ''brand'', ''category''],
           rows = [[(''product_sku'', PyStr ''1''), (''sku'', PyStr ''1''), (''name'', PyFloat 5),
                    (''brand'', PyStr []), (''category'', PyStr ''a'')],
                   [(''product_sku'', PyStr ''9''), (''sku'', NaN), (''name'', NaN), (''brand'', NaN),
                    (''category'', NaN)]]\<rparr>"
  "py_str (PyFloat 5) = ''5.0''"
  by code_simp+

text \<open>
  Claim C5, as amended. The claim asks for distinct sku values in the catalog; the
  join compares the texts of the values, and values that differ can have one text
  (the integer 1 and the string \<^verbatim>\<open>"1"\<close>), in which case a CSV row is returned
  once for each of them: \<open>row_count_counterexample\<close> has a catalog produced by
  \<open>merge_json_files\<close>, with distinct sku values, and a CSV of one row joined to two
  rows. What holds: for every CSV of N rows and every catalog whose sku values have
  pairwise different texts, a table returned by \<open>join_csv_files\<close> has exactly N
  rows.
\<close>

theorem join_keeps_row_count:
  assumes j: "join_csv_files merged_df (Inr input_df) = (out, merged', Inr joined)"
    and d: "distinct (map (\<lambda>r. py_str (getc r ''sku'')) (rows merged_df))"
  shows "length (rows joined) = length (rows input_df)"
proof -
  let ?k = "snd (join_column_of (columns input_df))"
  let ?input' = "if ?k \<in> set (columns input_df) then astype_str ?k input_df else input_df"
  note u = join_csv_files_Inr [OF j]
  from u(3) have pm: "pd_merge ?input' merged' ?k ''sku'' = Inr joined" by simp
  from pd_merge_Inr(3) [OF pm] u(2) have sku: "''sku'' \<in> set (columns merged_df)"
    by (auto split: if_splits)
  with u(2) have rows': "rows merged' = map (astype_row ''sku'') (rows merged_df)" by simp
  have "distinct (map (\<lambda>r. py_key (getc (astype_row ''sku'' r) ''sku'')) (rows merged_df))"
    using d by (rule distinct_map_coarser) (blast intro: text_key_coarser)
  then have dk: "distinct (map (\<lambda>r. py_key (getc r ''sku'')) (rows merged'))"
    by (simp add: rows' comp_def)
  from pd_merge_Inr(1) [OF pm] obtain lrow rrow nulls where
    "rows joined = left_join_rows ?k ''sku'' lrow rrow nulls (rows ?input') (rows merged')" by blast
  then have "length (rows joined) = length (rows ?input')"
    using filter_key_le_one [OF dk] by (simp add: length_left_join_rows)
  then show ?thesis by simp
qed

theorem join_keeps_row_count_witness:
  "join_csv_files e2e_catalog (Inr e2e_csv) =
     ([],
      \<lparr>columns = [''sku'', ''name'', ''brand'', ''category''],
         rows = [[(''sku'', PyStr ''1''), (''name'', PyStr ''Widget''), (''brand'', PyStr ''Acme''), (''category'', PyStr ''a'')],
                 [(''sku'', PyStr ''2''), (''name'', PyStr ''Gadget''), (''brand'', PyStr ''Zenith''), (''category'', PyStr ''b'')]]\<rparr>,
      Inr \<lparr>columns = [''product_sku'', ''sku'', ''name'', ''brand'', ''category''],
            rows = [[(''product_sku'', PyStr ''1''), (''sku'', PyStr ''1''), (''name'', PyStr ''Widget''),
                     (''brand'', PyStr ''Acme''), (''category'', PyStr ''a'')],
                    [(''product_sku'', PyStr ''2''), (''sku'', PyStr ''2''), (''name'', PyStr ''Gadget''),
                     (''brand'', PyStr ''Zenith''), (''category'', PyStr ''b'')],
                    [(''product_sku'', PyStr ''3''), (''sku'', NaN), (''name'', NaN), (''brand'', NaN),
                     (''category'', NaN)]]\<rparr>) \<and>
   distinct (map (\<lambda>r. py_str (getc r ''sku'')) (rows e2e_catalog)) \<and>
   length (rows \<lparr>columns = [''product_sku'', ''sku'', ''name'', ''brand'', ''category''],
            rows = [[(''product_sku'', PyStr ''1''), (''sku'', PyStr ''1''), (''name'', PyStr ''Widget''),
                     (''brand'', PyStr ''Acme''), (''category'', PyStr ''a'')],
                    [(''product_sku'', PyStr ''2''), (''sku'', PyStr ''2''), (''name'', PyStr ''Gadget''),
                     (''brand'', PyStr ''Zenith''), (''category'', PyStr ''b'')],
                    [(''product_sku'', PyStr ''3''), (''sku'', NaN), (''name'', NaN), (''brand'', NaN),
                     (''category'', NaN)]]\<rparr>) = length (rows e2e_csv)"
proof -
  have d: "distinct (map (\<lambda>r. py_str (getc r ''sku'')) (rows e2e_catalog))"
    by code_simp
  from join_keeps_row_count [OF e2e_join d] e2e_join d show ?thesis by (intro conjI)
qed

theorem row_count_counterexample:
  "merge_json_files clash_files =
     ([Processed ''data/a.json'' 1, Processed ''data/b.json'' 1], Inr clash_catalog) \<and>
   distinct (map sku_key (rows clash_catalog)) \<and>
   distinct (column ''sku'' (rows clash_catalog)) \<and>
   snd (snd (join_csv_files clash_catalog (Inr one_key_csv))) =
     Inr \<lparr>columns = [''product_sku'', ''sku'', ''name'', ''brand'', ''category''],
           rows = [[(''product_sku'', PyStr ''1''), (''sku'', PyStr ''1''), (''name'', PyStr ''Widget''),
                    (''brand'', PyStr ''Acme''), (''category'', PyStr ''a'')],
                   [(''product_sku'', PyStr ''1''), (''sku'', PyStr ''1''), (''name'', PyStr ''Gadget''),
                    (''brand'', PyStr ''Zenith''), (''category'', PyStr ''b'')]]\<rparr> \<and>
   (case snd (snd (join_csv_files clash_catalog (Inr one_key_csv))) of
      Inl e \<Rightarrow> 0 | Inr joined \<Rightarrow> length (rows joined)) = 2 \<and>
   length (rows one_key_csv) = 1"
  by code_simp

text \<open>
  Claim C9, as amended. The claim says the catalog table passed to the join is
  left unchanged. Line 116 assigns the text of the \<^verbatim>\<open>sku\<close> column into the
  caller's table: in \<open>catalog_overwritten_counterexample\<close> the catalog of the
  end-to-end example holds the integers 1 and 2 before the call and the strings
  \<^verbatim>\<open>"1"\<close> and \<^verbatim>\<open>"2"\<close> after it. What holds: the call changes nothing but
  the cells of the \<^verbatim>\<open>sku\<close> column, which it replaces by their text when the CSV
  was read; the labels, the number and order of the rows and every other cell are
  as before, and a catalog whose sku cells are strings already is left as it was.
\<close>

theorem join_overwrites_sku_in_place:
  assumes "join_csv_files merged_df csv = (out, merged', res)"
  shows "columns merged' = columns merged_df \<and>
     length (rows merged') = length (rows merged_df) \<and>
     (\<forall>i < length (rows merged_df).
         map fst (rows merged' ! i) = map fst (rows merged_df ! i) \<and>
         (\<forall>c. c \<noteq> ''sku'' \<longrightarrow> getc (rows merged' ! i) c = getc (rows merged_df ! i) c)) \<and>
     (\<forall>input_df. csv = Inr input_df \<and> ''sku'' \<in> set (columns merged_df) \<longrightarrow>
         rows merged' = map (astype_row ''sku'') (rows merged_df)) \<and>
     ((\<forall>r \<in> set (rows merged_df). \<forall>v. (''sku'', v) \<in> set r \<longrightarrow> is_str v) \<longrightarrow> merged' = merged_df)"
proof -
  have m: "merged' = merged_df \<or>
           ((\<exists>input_df. csv = Inr input_df) \<and> ''sku'' \<in> set (columns merged_df) \<and>
            merged' = astype_str ''sku'' merged_df)"
  proof (cases csv)
    case (Inl e)
    with assms show ?thesis by (simp add: join_csv_files_def)
  next
    case (Inr input_df)
    with assms join_csv_files_Inr(2) [of merged_df input_df out merged' res] show ?thesis
      by (auto split: if_splits)
  qed
  have a: "columns (astype_str ''sku'' merged_df) = columns merged_df" by simp
  have b: "length (rows (astype_str ''sku'' merged_df)) = length (rows merged_df)" by simp
  have c: "map fst (rows (astype_str ''sku'' merged_df) ! i) = map fst (rows merged_df ! i) \<and>
         (\<forall>c. c \<noteq> ''sku'' \<longrightarrow> getc (rows (astype_str ''sku'' merged_df) ! i) c = getc (rows merged_df ! i) c)"
    if "i < length (rows merged_df)" for i
    using that by (simp add: map_fst_astype_row getc_astype_row)
  have d: "astype_str ''sku'' merged_df = merged_df"
    if "\<forall>r \<in> set (rows merged_df). \<forall>v. (''sku'', v) \<in> set r \<longrightarrow> is_str v"
  proof -
    have "map (astype_row ''sku'') (rows merged_df) = rows merged_df"
      using that by (simp add: astype_row_id map_idI)
    then show ?thesis by (simp add: astype_str_def)
  qed
  have e: "rows merged' = map (astype_row ''sku'') (rows merged_df)"
    if "csv = Inr input_df" "''sku'' \<in> set (columns merged_df)" for input_df
    using assms that join_csv_files_Inr(2) [of merged_df input_df out merged' res] by simp
  from m show ?thesis
  proof
    assume "merged' = merged_df"
    with e show ?thesis by auto
  next
    assume "(\<exists>input_df. csv = Inr input_df) \<and> ''sku'' \<in> set (columns merged_df) \<and>
            merged' = astype_str ''sku'' merged_df"
    with a b c d e show ?thesis by auto
  qed
qed

theorem join_overwrites_sku_in_place_witness:
  "join_csv_files e2e_catalog (Inr e2e_csv) =
     ([],
      \<lparr>columns = [''sku'', ''name'', ''brand'', ''category''],
         rows = [[(''sku'', PyStr ''1''), (''name'', PyStr ''Widget''), (''brand'', PyStr ''Acme''), (''category'', PyStr ''a'')],
                 [(''sku'', PyStr ''2''), (''name'', PyStr ''Gadget''), (''brand'', PyStr ''Zenith''), (''category'', PyStr ''b'')]]\<rparr>,
      Inr \<lparr>columns = [''product_sku'', ''sku'', ''name'', ''brand'', ''category''],
            rows = [[(''product_sku'', PyStr ''1''), (''sku'', PyStr ''1''), (''name'', PyStr ''Widget''),
                     (''brand'', PyStr ''Acme''), (''category'', PyStr ''a'')],
                    [(''product_sku'', PyStr ''2''), (''sku'', PyStr ''2''), (''name'', PyStr ''Gadget''),
                     (''brand'', PyStr ''Zenith''), (''category'', PyStr ''b'')],
                    [(''product_sku'', PyStr ''3''), (''sku'', NaN), (''name'', NaN), (''brand'', NaN),
                     (''category'', NaN)]]\<rparr>) \<and>
   columns \<lparr>columns = [''sku'', ''name'', ''brand'', ''category''],
         rows = [[(''sku'', PyStr ''1''), (''name'', PyStr ''Widget''), (''brand'', PyStr ''Acme''), (''category'', PyStr ''a'')],
                 [(''sku'', PyStr ''2''), (''name'', PyStr ''Gadget''), (''brand'', PyStr ''Zenith''), (''category'', PyStr ''b'')]]\<rparr> =
     columns e2e_catalog \<and>
   rows \<lparr>columns = [''sku'', ''name'', ''brand'', ''category''],
         rows = [[(''sku'', PyStr ''1''), (''name'', PyStr ''Widget''), (''brand'', PyStr ''Acme''), (''category'', PyStr ''a'')],
                 [(''sku'', PyStr ''2''), (''name'', PyStr ''Gadget''), (''brand'', PyStr ''Zenith''), (''category'', PyStr ''b'')]]\<rparr> =
     map (astype_row ''sku'') (rows e2e_catalog)"
proof -
  have s: "''sku'' \<in> set (columns e2e_catalog)" by code_simp
  note t = join_overwrites_sku_in_place [OF e2e_join]
  from t have c: "columns \<lparr>columns = [''sku'', ''name'', ''brand'', ''category''],
         rows = [[(''sku'', PyStr ''1''), (''name'', PyStr ''Widget''), (''brand'', PyStr ''Acme''), (''category'', PyStr ''a'')],
                 [(''sku'', PyStr ''2''), (''name'', PyStr ''Gadget''), (''brand'', PyStr ''Zenith''), (''category'', PyStr ''b'')]]\<rparr> =
     columns e2e_catalog" by (elim conjE)
  from t s have r: "rows \<lparr>columns = [''sku'', ''name'', ''brand'', ''category''],
         rows = [[(''sku'', PyStr ''1''), (''name'', PyStr ''Widget''), (''brand'', PyStr ''Acme''), (''category'', PyStr ''a'')],
                 [(''sku'', PyStr ''2''), (''name'', PyStr ''Gadget''), (''brand'', PyStr ''Zenith''), (''category'', PyStr ''b'')]]\<rparr> =
     map (astype_row ''sku'') (rows e2e_catalog)" by blast
  from e2e_join c r show ?thesis by (intro conjI)
qed

theorem catalog_overwritten_counterexample:
  "merge_json_files e2e_files =
     ([Processed ''data/a.json'' 1, Processed ''data/b.json'' 1], Inr e2e_catalog) \<and>
   column ''sku'' (rows e2e_catalog) = [NpInt 1, NpInt 2] \<and>
   column ''sku'' (rows (fst (snd (join_csv_files e2e_catalog (Inr e2e_csv))))) = [PyStr ''1'', PyStr ''2''] \<and>
   fst (snd (join_csv_files e2e_catalog (Inr e2e_csv))) \<noteq> e2e_catalog"
  by code_simp

section \<open>Properties of \<^verbatim>\<open>find_json_files\<close>\<close>

lemma sort_cong_mset: "mset xs = mset ys \<Longrightarrow> sort xs = sort (ys :: string list)"
  by (rule properties_for_sort) simp_all

lemma not_json_DS_Store: "endswith file ''.json'' \<Longrightarrow> file \<noteq> ''.DS_Store''"
  by (auto simp: endswith_def)

lemma walk_mset:
  "mset (walk root n) = mset (map (\<lambda>(ds, file, p). p) (filter wanted (files_under root n)))"
  "mset (json_here root es) + mset (walk_dirs root es) =
     mset (map (\<lambda>(ds, file, p). p) (filter wanted (entries_under root es)))"
proof (induction root n and root es rule: walk_walk_dirs.induct)
  case (1 root)
  show ?case by simp
next
  case (2 root entries)
  then show ?case by simp
next
  case (3 root)
  show ?case by (simp add: json_here_def)
next
  case (4 root e es)
  show ?case
  proof (cases "is_dir (snd e)")
    case True
    have jh: "json_here root (e # es) = json_here root es"
      using True by (simp add: json_here_def)
    show ?thesis
    proof (cases "fst e \<in> set exclude_dirs")
      case ex: True
      then have "filter wanted (map (\<lambda>(ds, file, p). (fst e # ds, file, p)) xs) = []" for xs
        by (auto simp: filter_empty_conv wanted_def exclude_dirs_def)
      with True ex 4(2) show ?thesis by (simp add: jh)
    next
      case nex: False
      have "filter wanted (map (\<lambda>(ds, file, p). (fst e # ds, file, p)) xs) =
            map (\<lambda>(ds, file, p). (fst e # ds, file, p)) (filter wanted xs)" for xs
        using nex by (induction xs) (auto simp: wanted_def exclude_dirs_def)
      then have "map (\<lambda>(ds, file, p). p) (filter wanted (map (\<lambda>(ds, file, p). (fst e # ds, file, p)) xs)) =
            map (\<lambda>(ds, file, p). p) (filter wanted xs)" for xs
        by (simp add: comp_def split_def)
      with True nex 4(1) 4(2) show ?thesis by (simp add: jh)
    qed
  next
    case False
    have jh: "json_here root (e # es) =
        (if endswith (fst e) ''.json'' then [path_join root (fst e)] else []) @ json_here root es"
      using False by (simp add: json_here_def)
    have w: "wanted ([], fst e, p) = endswith (fst e) ''.json''" for p
      using not_json_DS_Store by (auto simp: wanted_def)
    from False 4(2) show ?thesis by (simp add: jh w)
  qed
qed

text \<open>
  Claim C8. When nothing exists at the base directory the function prints a warning
  and returns the empty list, without an exception. Otherwise it returns the list
  that the contract describes (\<open>spec_listing\<close>): the paths of all files below the
  directory whose name ends in \<^verbatim>\<open>.json\<close>, without what lies below a directory
  named \<^verbatim>\<open>_MACOSX\<close> or \<^verbatim>\<open>.DS_Store\<close> and without files named
  \<^verbatim>\<open>.DS_Store\<close>, sorted by full path. The witness has the two examples of the
  specification: \<^verbatim>\<open>b.json\<close> and \<^verbatim>\<open>a.json\<close> come back in the order a, b, and
  of \<^verbatim>\<open>_MACOSX/a.json\<close>, \<^verbatim>\<open>.DS_Store\<close> and \<^verbatim>\<open>data/cat.json\<close> only the
  last is returned.
\<close>

theorem find_json_files_contract:
  "find_json_files None base_dir = ([WarnNoDirectory base_dir], []) \<and>
   find_json_files (Some n) base_dir = ([], spec_listing base_dir n) \<and>
   sorted (snd (find_json_files at_base base_dir))"
proof (intro conjI)
  show "find_json_files None base_dir = ([WarnNoDirectory base_dir], [])"
    by (simp add: find_json_files_def)
  show "find_json_files (Some n) base_dir = ([], spec_listing base_dir n)"
    unfolding find_json_files_def spec_listing_def
    by (simp add: sort_cong_mset [OF walk_mset(1)])
  show "sorted (snd (find_json_files at_base base_dir))"
    by (cases at_base) (simp_all add: find_json_files_def)
qed

theorem find_json_files_contract_witness:
  "find_json_files None ''data'' = ([WarnNoDirectory ''data''], []) \<and>
   find_json_files (Some (Dir [(''b.json'', File), (''a.json'', File)])) ''data'' =
     ([], [''data/a.json'', ''data/b.json'']) \<and>
   find_json_files
     (Some (Dir [(''_MACOSX'', Dir [(''a.json'', File)]), (''.DS_Store'', File),
                 (''data'', Dir [(''cat.json'', File)])])) ''.'' =
     ([], [''./data/cat.json'']) \<and>
   sorted [''data/a.json'', ''data/b.json'']"
proof -
  have a: "spec_listing ''data'' (Dir [(''b.json'', File), (''a.json'', File)]) =
      [''data/a.json'', ''data/b.json'']"
    by code_simp
  have b: "spec_listing ''.'' (Dir [(''_MACOSX'', Dir [(''a.json'', File)]), (''.DS_Store'', File),
                 (''data'', Dir [(''cat.json'', File)])]) = [''./data/cat.json'']"
    by code_simp
  note t = find_json_files_contract [of "''data''" "Dir [(''b.json'', File), (''a.json'', File)]"
      "Some (Dir [(''b.json'', File), (''a.json'', File)])"]
  note u = find_json_files_contract [of "''.''" "Dir [(''_MACOSX'', Dir [(''a.json'', File)]), (''.DS_Store'', File),
                 (''data'', Dir [(''cat.json'', File)])]" None]
  from t have 1: "find_json_files None ''data'' = ([WarnNoDirectory ''data''], [])" by (elim conjE)
  from t a have 2: "find_json_files (Some (Dir [(''b.json'', File), (''a.json'', File)])) ''data'' =
     ([], [''data/a.json'', ''data/b.json''])" by simp
  from u b have 3: "find_json_files
     (Some (Dir [(''_MACOSX'', Dir [(''a.json'', File)]), (''.DS_Store'', File),
                 (''data'', Dir [(''cat.json'', File)])])) ''.'' = ([], [''./data/cat.json''])" by simp
  from t 2 have 4: "sorted [''data/a.json'', ''data/b.json'']" by (simp only: snd_conv)
  from 1 2 3 4 show ?thesis by (intro conjI)
qed

section \<open>Where the code leaves its contract\<close>

text \<open>
  Claim C2 says that an empty aggregate of records still gives a table with the four
  required columns and no rows, without an exception. On the code, the frame built
  from no records has no columns, and line 73 sorts it by \<^verbatim>\<open>category\<close> before
  the loop of lines 77 to 80 could create that column: with one file holding an
  empty list and one unreadable file, the call prints its two lines and raises
  KeyError for \<^verbatim>\<open>category\<close>.
\<close>

theorem empty_aggregate_raises:
  "merge_json_files [(''data/a.json'', Loaded (JArr [])), (''data/b.json'', LoadFailed)] =
     ([Processed ''data/a.json'' 0, ErrorProcessing ''data/b.json''], Inl (KeyError ''category''))"
  by code_simp

text \<open>
  Claim C3 says that each required column missing from every record, \<^verbatim>\<open>sku\<close>
  included, is created holding empty strings, with a diagnostic and no exception.
  On the code, records without \<^verbatim>\<open>sku\<close> and without \<^verbatim>\<open>id\<close> reach
  \<^verbatim>\<open>drop_duplicates(subset='sku')\<close> on line 73 before the loop of lines 77 to 80:
  the call raises KeyError for \<^verbatim>\<open>sku\<close> and prints no warning.
\<close>

theorem missing_sku_raises:
  "merge_json_files
     [(''data/a.json'', Loaded (JArr [JObj [(''name'', JStr ''Widget''), (''brand'', JStr ''Acme'')]]))] =
     ([Processed ''data/a.json'' 1], Inl (KeyError ''sku''))"
  by code_simp

text \<open>
  Claim C4 says that a CSV without \<^verbatim>\<open>product_sku\<close> and without any column whose
  name contains \<^verbatim>\<open>sku\<close> is still joined, with every catalog column empty. On the
  code, the two warning lines are printed, the catalog's \<^verbatim>\<open>sku\<close> column is
  turned into text, and \<^verbatim>\<open>pd.merge\<close> then raises KeyError for the absent
  \<^verbatim>\<open>product_sku\<close>: no table is returned.
\<close>

theorem no_key_column_raises:
  "join_csv_files
     \<lparr>columns = required_columns,
        rows = [[(''sku'', NpInt 1), (''name'', PyStr ''Widget''), (''brand'', PyStr ''Acme''),
                 (''category'', PyStr ''a'')]]\<rparr>
     (Inr \<lparr>columns = [''code'', ''qty''], rows = [[(''code'', NpInt 1), (''qty'', NpInt 5)]]\<rparr>) =
     ([WarnNoProductSku, AvailableColumns [''code'', ''qty'']],
      \<lparr>columns = required_columns,
         rows = [[(''sku'', PyStr ''1''), (''name'', PyStr ''Widget''), (''brand'', PyStr ''Acme''),
                  (''category'', PyStr ''a'')]]\<rparr>,
      Inl (KeyError ''product_sku''))"
  by code_simp

end
